theory Spec2Isabelle
  imports Complex_Main "HOL-Library.AList" "HOL-Library.Char_ord" "HOL-Library.List_Lexorder"
begin

section \<open>The activity tracker of the guild activity helper\<close>

text \<open>
  The development follows \<^verbatim>\<open>src/activity_tracker.py\<close>, class \<^verbatim>\<open>ActivityTracker\<close>:
  the loop of \<^verbatim>\<open>calculate_activity\<close> that rebuilds one session record per player from
  the join/leave log, the three activity lists computed after the loop, the two promotion
  lists and the part of \<^verbatim>\<open>print_activity_log\<close> that splits a promotion list into the
  players with and without a known guild-join date.

  What is taken as given:
  \<^item> a \<^verbatim>\<open>datetime\<close> is an instant, counted in microseconds (the resolution of Python's
    \<^verbatim>\<open>datetime\<close>); every timestamp of the log carries a UTC offset, as
    \<^verbatim>\<open>DiscordLogClient\<close> writes it, so subtraction and comparison never mix naive and
    aware values;
  \<^item> the three files are either impossible to open or already parsed: the grammar of
    \<^verbatim>\<open>load_guild_list\<close> and \<^verbatim>\<open>load_sb_level_list\<close> and \<^verbatim>\<open>json.load\<close> are not
    modelled;
  \<^item> a level of the level list is a rational number (it is only compared with 240);
  \<^item> a Python \<^verbatim>\<open>dict\<close> is an association list in insertion order with
    \<^const>\<open>AList.update\<close> as item assignment; the \<^verbatim>\<open>set\<close> \<^verbatim>\<open>igns_in_grace_period\<close>
    is a duplicate-free list in insertion order (CPython iterates a set in hash order,
    which only matters for the relative order of grace-period players with the same last
    join);
  \<^item> the text of the report (column widths, date formats, the grouping by rank and the
    closing disclaimers) is not modelled, only which lists are printed.
\<close>

subsection \<open>Time\<close>

type_synonym datetime = int
type_synonym timedelta = int

definition timedelta_minutes :: "int \<Rightarrow> timedelta" where
  "timedelta_minutes m = m * 60 * 1000000"

text \<open>
  \<^verbatim>\<open>timedelta.seconds\<close>: a \<^verbatim>\<open>timedelta\<close> is normalised to days, seconds and
  microseconds with \<open>0 \<le> seconds < 86400\<close> and \<open>0 \<le> microseconds < 1000000\<close>; the days
  carry the sign.
\<close>

definition seconds :: "timedelta \<Rightarrow> int" where
  "seconds d = (d div 1000000) mod 86400"

subsection \<open>Data\<close>

type_synonym ign = string

text \<open>One entry of the log file; the four getters of the class are the selectors.\<close>

record log =
  get_timestamp :: datetime
  get_ign :: ign
  get_is_join :: bool
  get_is_guild_join :: bool

text \<open>The value of \<^verbatim>\<open>self.activity[ign]\<close>, keys \<^verbatim>\<open>LAST_JOIN_KEY\<close>,
  \<^verbatim>\<open>LAST_LEAVE_KEY\<close> and \<^verbatim>\<open>LAST_LONG_JOIN_KEY\<close>.\<close>

record session =
  last_join :: "datetime option"
  last_leave :: "datetime option"
  last_long_join :: "datetime list"

datatype error = OSError string | IndexError | KeyError string | TypeError

type_synonym guild_list = "(string \<times> ign list) list"

text \<open>The attributes of an \<^verbatim>\<open>ActivityTracker\<close>. Python creates all but
  \<^verbatim>\<open>activity\<close> at their first assignment in \<^verbatim>\<open>calculate_activity\<close>, which assigns
  each of them before it reads it; here they start empty.\<close>

record tracker =
  activity :: "(ign \<times> session) list"
  guild_list_dict :: guild_list
  sb_level_dict :: "(ign \<times> rat) list"
  furthest_log_time :: datetime
  nearest_log_time :: datetime
  known_guild_join_dates :: "(ign \<times> datetime) list"
  active_igns :: "ign list"
  inactive_igns :: "ign list"
  grace_period_igns :: "ign list"
  raw_to_boiled_promotion_igns :: "ign list"
  boiled_to_scrambled_promotion_igns :: "ign list"

text \<open>The files a run reads: \<open>None\<close> when \<^verbatim>\<open>open\<close> raises, otherwise what the loader
  returns. The log file is looked up by the name passed to \<^verbatim>\<open>calculate_activity\<close>.\<close>

record files =
  json_load :: "string \<Rightarrow> log list option"
  guild_list_file :: "guild_list option"
  sb_level_list_file :: "(ign \<times> rat) list option"

text \<open>What \<^verbatim>\<open>print_activity_log\<close> prints, as far as it is modelled: the three lists,
  and for each promotion the warning (printed only when its list is not empty) and the
  list printed after it. The rows it prints under each list format the last join of the
  player, which is there for every session the loop has written (a session with no last
  join would end the printing with an \<^verbatim>\<open>AttributeError\<close>).\<close>

record report =
  active_printed :: "ign list"
  grace_period_printed :: "ign list"
  inactive_printed :: "ign list"
  raw_warning :: "ign list option"
  raw_printed :: "ign list"
  boiled_warning :: "ign list option"
  boiled_printed :: "ign list"

datatype printed = Guild_list guild_list | Activity_log report

subsection \<open>Constants of the class\<close>

definition MINS_FOR_LONG_JOIN :: int where "MINS_FOR_LONG_JOIN = 30"
definition MINS_FOR_RECONNECT_TIMEOUT :: int where "MINS_FOR_RECONNECT_TIMEOUT = 60 * 2"
definition MINS_FOR_JOIN_LOG_TIMEOUT :: int where "MINS_FOR_JOIN_LOG_TIMEOUT = 60 * 24"
definition MINS_FOR_ACTIVITY_RANGE :: int where "MINS_FOR_ACTIVITY_RANGE = 60 * 24 * 60"
definition NUM_LONG_JOINS_FOR_ACTIVITY :: nat where "NUM_LONG_JOINS_FOR_ACTIVITY = 2"
definition MINS_FOR_RAW_PROMOTION_ACTIVITY_RANGE :: int where
  "MINS_FOR_RAW_PROMOTION_ACTIVITY_RANGE = 60 * 24 * 7"
definition NUM_LONG_JOINS_FOR_RAW_PROMOTION :: nat where "NUM_LONG_JOINS_FOR_RAW_PROMOTION = 1"
definition MINS_FOR_RAW_JOIN_DATE_PROMOTION_RANGE :: int where
  "MINS_FOR_RAW_JOIN_DATE_PROMOTION_RANGE = 60 * 24 * 30"
definition MINS_FOR_BOILED_PROMOTION_ACTIVITY_RANGE :: int where
  "MINS_FOR_BOILED_PROMOTION_ACTIVITY_RANGE = 60 * 24 * 7"
definition NUM_LONG_JOINS_FOR_BOILED_PROMOTION :: nat where
  "NUM_LONG_JOINS_FOR_BOILED_PROMOTION = 1"
definition MINS_FOR_BOILED_JOIN_DATE_PROMOTION_RANGE :: int where
  "MINS_FOR_BOILED_JOIN_DATE_PROMOTION_RANGE = 60 * 24 * 91"
definition SCRAMBLED_SB_LEVEL :: rat where "SCRAMBLED_SB_LEVEL = 240"
definition GUILD_LIST_FILENAME :: string where "GUILD_LIST_FILENAME = ''data/guild_list.txt''"
definition SB_LEVEL_LIST_FILENAME :: string where
  "SB_LEVEL_LIST_FILENAME = ''data/sb_level_list.txt''"

subsection \<open>Construction\<close>

definition reset :: "tracker \<Rightarrow> tracker" where
  "reset self = self\<lparr>activity := []\<rparr>"

definition init :: tracker where
  "init = reset \<lparr>activity = [], guild_list_dict = [], sb_level_dict = [],
     furthest_log_time = 0, nearest_log_time = 0, known_guild_join_dates = [],
     active_igns = [], inactive_igns = [], grace_period_igns = [],
     raw_to_boiled_promotion_igns = [], boiled_to_scrambled_promotion_igns = []\<rparr>"

subsection \<open>The session loop\<close>

definition is_time_within_mins :: "datetime \<Rightarrow> datetime \<Rightarrow> int \<Rightarrow> bool" where
  "is_time_within_mins start end' mins = (let diff = end' - start in seconds diff < 60 * mins)"

text \<open>
  One iteration of \<^verbatim>\<open>for log in logs\<close>. The state is the tracker and the local set
  \<^verbatim>\<open>igns_in_grace_period\<close>. An entry for a new player is created with no join, no
  leave and no long joins and is then updated like any other.
  \<^verbatim>\<open>is_time_within_mins(None, ...)\<close> subtracts \<^verbatim>\<open>None\<close> from a \<^verbatim>\<open>datetime\<close>, a
  \<^verbatim>\<open>TypeError\<close>; the \<^verbatim>\<open>or\<close> chain reaches it only when the two tests before it fail.
\<close>

definition parse_log ::
  "datetime \<Rightarrow> log \<Rightarrow> tracker \<times> ign list \<Rightarrow> error + tracker \<times> ign list" where
  "parse_log activity_grace_period_end lg st =
    (let self = fst st;
         igns_in_grace_period = snd st;
         i = get_ign lg;
         a = (case map_of (activity self) i of
                None \<Rightarrow> \<lparr>last_join = None, last_leave = None, last_long_join = []\<rparr>
              | Some a \<Rightarrow> a);
         t = get_timestamp lg
     in if get_is_join lg then
          (case (case last_leave a of
                   None \<Rightarrow> Inr True
                 | Some l \<Rightarrow>
                     if \<not> is_time_within_mins l t MINS_FOR_RECONNECT_TIMEOUT then Inr True
                     else (case last_join a of
                             None \<Rightarrow> Inl TypeError
                           | Some j \<Rightarrow> Inr (is_time_within_mins j t MINS_FOR_JOIN_LOG_TIMEOUT)))
           of Inl e \<Rightarrow> Inl e
            | Inr c \<Rightarrow>
                let a' = (if c then a\<lparr>last_join := Some t\<rparr> else a);
                    self' = self\<lparr>activity := AList.update i a' (activity self)\<rparr>
                in if get_is_guild_join lg then
                     Inr (self'\<lparr>known_guild_join_dates :=
                                  AList.update i t (known_guild_join_dates self')\<rparr>,
                          if t \<ge> activity_grace_period_end
                          then List.insert i igns_in_grace_period
                          else igns_in_grace_period)
                   else Inr (self', igns_in_grace_period))
        else
          (let a1 = a\<lparr>last_leave := Some t\<rparr>;
               last_join_timestamp =
                 (case last_join a1 of None \<Rightarrow> furthest_log_time self | Some j \<Rightarrow> j);
               a2 = (case last_join a1 of
                       None \<Rightarrow> a1\<lparr>last_join := Some (furthest_log_time self)\<rparr>
                     | Some j \<Rightarrow> a1);
               a3 = (if \<not> is_time_within_mins last_join_timestamp t MINS_FOR_LONG_JOIN then
                       (if length (last_long_join a2) = 0
                           \<or> Some (last (last_long_join a2)) \<noteq> last_join a2
                        then a2\<lparr>last_long_join := last_long_join a2 @ [last_join_timestamp]\<rparr>
                        else a2)
                     else a2)
           in Inr (self\<lparr>activity := AList.update i a3 (activity self)\<rparr>,
                   igns_in_grace_period)))"

text \<open>The loop: the first exception ends it.\<close>

fun parse_logs ::
  "datetime \<Rightarrow> log list \<Rightarrow> tracker \<times> ign list \<Rightarrow> error + tracker \<times> ign list" where
  "parse_logs g [] st = Inr st"
| "parse_logs g (lg # lgs) st =
     (case parse_log g lg st of Inl e \<Rightarrow> Inl e | Inr st' \<Rightarrow> parse_logs g lgs st')"

subsection \<open>The three activity lists\<close>

definition get_active_igns :: "tracker \<Rightarrow> ign list" where
  "get_active_igns self =
     map fst (filter (\<lambda>(i, a). length (last_long_join a) \<ge> NUM_LONG_JOINS_FOR_ACTIVITY)
                     (activity self))"

text \<open>
  \<^verbatim>\<open>sorted(igns, key=lambda ign: self.activity[ign][self.LAST_JOIN_KEY], reverse=True)\<close>.
  The keys are computed first, one per element (a missing player is a \<^verbatim>\<open>KeyError\<close>);
  then the list is sorted, which compares keys as soon as there are two elements, and
  comparing \<^verbatim>\<open>None\<close> is a \<^verbatim>\<open>TypeError\<close>. The sort is stable, also with
  \<^verbatim>\<open>reverse=True\<close>: players with the same key keep their order.
\<close>

fun last_join_keys :: "tracker \<Rightarrow> ign list \<Rightarrow> error + (ign \<times> datetime option) list" where
  "last_join_keys self [] = Inr []"
| "last_join_keys self (i # igns) =
     (case map_of (activity self) i of
        None \<Rightarrow> Inl (KeyError i)
      | Some a \<Rightarrow>
          (case last_join_keys self igns of
             Inl e \<Rightarrow> Inl e
           | Inr ks \<Rightarrow> Inr ((i, last_join a) # ks)))"

definition sorted_by_last_join :: "tracker \<Rightarrow> ign list \<Rightarrow> error + ign list" where
  "sorted_by_last_join self igns =
     (case last_join_keys self igns of
        Inl e \<Rightarrow> Inl e
      | Inr ks \<Rightarrow>
          if length ks \<ge> 2 \<and> list_ex (\<lambda>(i, k). k = None) ks then Inl TypeError
          else Inr (map fst (sort_key (\<lambda>(i, k). case k of None \<Rightarrow> 0 | Some t \<Rightarrow> - t) ks)))"

text \<open>
  Lines 356 to 371 of \<^verbatim>\<open>calculate_activity\<close>: the three lists are sorted, cut down
  to the guild list, and the grace-period players are taken out of the inactive list, the
  active ones out of the grace-period list. The inactive list is built from the active
  list as it is before the guild list cuts it down.
\<close>

definition sort_categories :: "tracker \<Rightarrow> ign list \<Rightarrow> ign list \<Rightarrow> error + tracker" where
  "sort_categories self igns_in_grace_period guild_list =
     (case sorted_by_last_join self (get_active_igns self) of
        Inl e \<Rightarrow> Inl e
      | Inr active0 \<Rightarrow>
     (case sorted_by_last_join self
             [i \<leftarrow> map fst (activity self). i \<notin> set active0] of
        Inl e \<Rightarrow> Inl e
      | Inr inactive_seen \<Rightarrow>
     (let inactive0 =
            inactive_seen @ sort [i \<leftarrow> guild_list. i \<notin> set (map fst (activity self))]
      in
     (case sorted_by_last_join self igns_in_grace_period of
        Inl e \<Rightarrow> Inl e
      | Inr grace0 \<Rightarrow>
          let active1 = [i \<leftarrow> active0. i \<in> set guild_list];
              inactive1 = [i \<leftarrow> inactive0. i \<in> set guild_list];
              grace1 = [i \<leftarrow> grace0. i \<in> set guild_list];
              grace2 = [i \<leftarrow> grace1. i \<notin> set active1];
              inactive2 = [i \<leftarrow> inactive1. i \<notin> set grace2]
          in Inr (self\<lparr>active_igns := active1, inactive_igns := inactive2,
                       grace_period_igns := grace2\<rparr>)))))"

subsection \<open>Promotions\<close>

text \<open>\<^verbatim>\<open>xs[-n:]\<close> for \<open>n > 0\<close>: the last \<open>n\<close> elements, all of them when there
  are fewer.\<close>

definition last_n :: "nat \<Rightarrow> 'a list \<Rightarrow> 'a list" where
  "last_n n xs = drop (length xs - n) xs"

text \<open>A list comprehension whose condition may raise.\<close>

fun filter_raising :: "('a \<Rightarrow> error + bool) \<Rightarrow> 'a list \<Rightarrow> error + 'a list" where
  "filter_raising p [] = Inr []"
| "filter_raising p (x # xs) =
     (case p x of
        Inl e \<Rightarrow> Inl e
      | Inr b \<Rightarrow>
          (case filter_raising p xs of
             Inl e \<Rightarrow> Inl e
           | Inr ys \<Rightarrow> Inr (if b then x # ys else ys)))"

text \<open>The condition shared by the two promotions: active, none of the last \<open>n\<close>
  long joins before the start of the range, and a guild-join date that is unknown or old
  enough. \<^verbatim>\<open>and\<close> stops at the first false test, so \<^verbatim>\<open>self.activity[ign]\<close> is
  read for active players only.\<close>

definition promotion_test ::
  "tracker \<Rightarrow> nat \<Rightarrow> datetime \<Rightarrow> datetime \<Rightarrow> ign \<Rightarrow> error + bool" where
  "promotion_test self n activity_range_start join_date_end i =
     (if i \<in> set (active_igns self) then
        (case map_of (activity self) i of
           None \<Rightarrow> Inl (KeyError i)
         | Some a \<Rightarrow>
             Inr (length [t \<leftarrow> last_n n (last_long_join a). t < activity_range_start] = 0
                  \<and> (case map_of (known_guild_join_dates self) i of
                         None \<Rightarrow> True
                       | Some d \<Rightarrow> d \<le> join_date_end)))
      else Inr False)"

definition get_raw_to_boiled_promotion_igns :: "tracker \<Rightarrow> datetime \<Rightarrow> error + ign list" where
  "get_raw_to_boiled_promotion_igns self today =
     (case map_of (guild_list_dict self) ''Raw Egg'' of
        None \<Rightarrow> Inl (KeyError ''Raw Egg'')
      | Some raw_igns \<Rightarrow>
          let activity_range_start =
                nearest_log_time self - timedelta_minutes MINS_FOR_RAW_PROMOTION_ACTIVITY_RANGE;
              join_date_end = today - timedelta_minutes MINS_FOR_RAW_JOIN_DATE_PROMOTION_RANGE
          in filter_raising
               (promotion_test self NUM_LONG_JOINS_FOR_RAW_PROMOTION activity_range_start
                  join_date_end)
               raw_igns)"

definition get_boiled_to_scrambled_promotion_igns ::
  "tracker \<Rightarrow> datetime \<Rightarrow> error + ign list" where
  "get_boiled_to_scrambled_promotion_igns self today =
     (case map_of (guild_list_dict self) ''Hard Boiled Egg'' of
        None \<Rightarrow> Inl (KeyError ''Hard Boiled Egg'')
      | Some boiled_igns \<Rightarrow>
          let activity_range_start =
                nearest_log_time self
                - timedelta_minutes MINS_FOR_BOILED_PROMOTION_ACTIVITY_RANGE;
              join_date_end =
                today - timedelta_minutes MINS_FOR_BOILED_JOIN_DATE_PROMOTION_RANGE
          in filter_raising
               (\<lambda>i. case promotion_test self NUM_LONG_JOINS_FOR_BOILED_PROMOTION
                            activity_range_start join_date_end i of
                       Inl e \<Rightarrow> Inl e
                     | Inr b \<Rightarrow>
                         Inr (b \<and> (case map_of (sb_level_dict self) i of
                                      None \<Rightarrow> - 1
                                    | Some l \<Rightarrow> l) \<ge> SCRAMBLED_SB_LEVEL))
               boiled_igns)"

subsection \<open>The report\<close>

definition print_activity_log :: "tracker \<Rightarrow> report" where
  "print_activity_log self =
     (let raw_unknown_join_igns =
            [i \<leftarrow> raw_to_boiled_promotion_igns self.
               map_of (known_guild_join_dates self) i = None];
          boiled_unknown_join_igns =
            [i \<leftarrow> boiled_to_scrambled_promotion_igns self.
               map_of (known_guild_join_dates self) i = None]
      in \<lparr>active_printed = active_igns self,
          grace_period_printed = grace_period_igns self,
          inactive_printed = inactive_igns self,
          raw_warning =
            (if length raw_unknown_join_igns > 0 then Some raw_unknown_join_igns else None),
          raw_printed =
            [i \<leftarrow> raw_to_boiled_promotion_igns self. i \<notin> set raw_unknown_join_igns],
          boiled_warning =
            (if length boiled_unknown_join_igns > 0 then Some boiled_unknown_join_igns
             else None),
          boiled_printed =
            [i \<leftarrow> boiled_to_scrambled_promotion_igns self.
               i \<notin> set boiled_unknown_join_igns]\<rparr>)"

subsection \<open>A run\<close>

text \<open>
  \<^verbatim>\<open>calculate_activity(log_file)\<close> on a tracker, with the files and the reading of the
  clock (\<^verbatim>\<open>datetime.datetime.now()\<close>) it finds. The result is what has been printed
  and either the exception that ended the run or the tracker as the run leaves it. The
  tracker is not reset: the loop goes on from the sessions it holds.
\<close>

definition calculate_activity ::
  "tracker \<Rightarrow> string \<Rightarrow> files \<Rightarrow> datetime \<Rightarrow> printed list \<times> (error + tracker)" where
  "calculate_activity self log_file fs today =
     (case json_load fs log_file of
        None \<Rightarrow> ([], Inl (OSError log_file))
      | Some logs \<Rightarrow>
     (case guild_list_file fs of
        None \<Rightarrow> ([], Inl (OSError GUILD_LIST_FILENAME))
      | Some gl \<Rightarrow>
     (let self1 = self\<lparr>guild_list_dict := gl\<rparr>;
          out1 = [Guild_list gl]
      in
     (case sb_level_list_file fs of
        None \<Rightarrow> (out1, Inl (OSError SB_LEVEL_LIST_FILENAME))
      | Some sb \<Rightarrow>
     (let self2 = self1\<lparr>sb_level_dict := sb\<rparr>;
          guild_list = concat (map snd (guild_list_dict self2))
      in
     (case logs of
        [] \<Rightarrow> (out1, Inl IndexError)
      | lg # lgs \<Rightarrow>
     (let self3 = self2\<lparr>furthest_log_time := get_timestamp (hd logs),
                         nearest_log_time := get_timestamp (last logs),
                         known_guild_join_dates := []\<rparr>;
          activity_grace_period_end =
            furthest_log_time self3 - timedelta_minutes MINS_FOR_ACTIVITY_RANGE
      in
     (case parse_logs activity_grace_period_end logs (self3, []) of
        Inl e \<Rightarrow> (out1, Inl e)
      | Inr (self4, igns_in_grace_period) \<Rightarrow>
     (case sort_categories self4 igns_in_grace_period guild_list of
        Inl e \<Rightarrow> (out1, Inl e)
      | Inr self5 \<Rightarrow>
     (case get_raw_to_boiled_promotion_igns self5 today of
        Inl e \<Rightarrow> (out1, Inl e)
      | Inr raw \<Rightarrow>
     (let self6 = self5\<lparr>raw_to_boiled_promotion_igns := raw\<rparr>
      in
     (case get_boiled_to_scrambled_promotion_igns self6 today of
        Inl e \<Rightarrow> (out1, Inl e)
      | Inr boiled \<Rightarrow>
     (let self7 = self6\<lparr>boiled_to_scrambled_promotion_igns := boiled\<rparr>
      in (out1 @ [Activity_log (print_activity_log self7)], Inr self7))))))))))))))"

subsection \<open>Inputs for the worked examples\<close>

text \<open>An entry as \<^verbatim>\<open>DiscordLogClient.save_messages\<close> writes it.\<close>

definition log_entry :: "datetime \<Rightarrow> ign \<Rightarrow> bool \<Rightarrow> bool \<Rightarrow> log" where
  "log_entry t i j g =
     \<lparr>get_timestamp = t, get_ign = i, get_is_join = j, get_is_guild_join = g\<rparr>"

text \<open>All three files readable: the log, a guild list and an empty level list.\<close>

definition files_with :: "log list \<Rightarrow> guild_list \<Rightarrow> files" where
  "files_with logs gl =
     \<lparr>json_load = (\<lambda>f. Some logs), guild_list_file = Some gl, sb_level_list_file = Some []\<rparr>"

definition files_without_guild_list :: "log list \<Rightarrow> files" where
  "files_without_guild_list logs =
     \<lparr>json_load = (\<lambda>f. Some logs), guild_list_file = None, sb_level_list_file = Some []\<rparr>"

definition two_ranks :: "ign list \<Rightarrow> ign list \<Rightarrow> guild_list" where
  "two_ranks raw boiled = [(''Raw Egg'', raw), (''Hard Boiled Egg'', boiled)]"

definition one_join :: "log list" where
  "one_join = [log_entry 0 ''A'' True False]"

text \<open>
  The reconnect scenario of the specification: join, leave after 10 minutes, join again a
  minute later, leave 50 minutes after the first join. And a session of one day and ten
  minutes.
\<close>

definition reconnect_log :: "datetime \<Rightarrow> log list" where
  "reconnect_log T0 =
     [log_entry T0 ''A'' True False,
      log_entry (T0 + timedelta_minutes 10) ''A'' False False,
      log_entry (T0 + timedelta_minutes 11) ''A'' True False,
      log_entry (T0 + timedelta_minutes 50) ''A'' False False]"

definition overnight_log :: "datetime \<Rightarrow> log list" where
  "overnight_log T0 =
     [log_entry T0 ''A'' True False,
      log_entry (T0 + timedelta_minutes (24 * 60 + 10)) ''A'' False False]"

text \<open>
  A leave with no join before it, then a join; a player who joins the guild and has two
  long sessions; a guild join a hundred days before the last entry.
\<close>

definition rejoin_log :: "log list" where
  "rejoin_log =
     [log_entry 0 ''B'' True False,
      log_entry (timedelta_minutes 40) ''A'' False False,
      log_entry (timedelta_minutes 50) ''A'' True False]"

definition tenure_log :: "log list" where
  "tenure_log =
     [log_entry 0 ''A'' True True,
      log_entry (timedelta_minutes 40) ''A'' False False,
      log_entry (timedelta_minutes 50) ''A'' True False,
      log_entry (timedelta_minutes 100) ''A'' False False]"

definition far_apart_log :: "log list" where
  "far_apart_log =
     [log_entry 0 ''A'' True True,
      log_entry (timedelta_minutes (100 * 24 * 60)) ''B'' True False]"

text \<open>Player A has two long sessions, B joins the guild, D is seen but is in no rank.\<close>

definition two_sessions :: "log list" where
  "two_sessions =
     [log_entry 0 ''A'' True False,
      log_entry (timedelta_minutes 40) ''A'' False False,
      log_entry (timedelta_minutes 50) ''A'' True False,
      log_entry (timedelta_minutes 100) ''A'' False False,
      log_entry (timedelta_minutes 110) ''B'' True True,
      log_entry (timedelta_minutes 120) ''D'' True False]"

text \<open>What a fresh tracker holds and what the report shows after a run on that log with
  A and B in the first rank and C in the second, at clock reading 0.\<close>

definition after_two_sessions :: tracker where
  "after_two_sessions =
     \<lparr>activity =
        [(''A'', \<lparr>last_join = Some 3000000000, last_leave = Some 6000000000,
                  last_long_join = [0, 3000000000]\<rparr>),
         (''B'', \<lparr>last_join = Some 6600000000, last_leave = None, last_long_join = []\<rparr>),
         (''D'', \<lparr>last_join = Some 7200000000, last_leave = None, last_long_join = []\<rparr>)],
      guild_list_dict = two_ranks [''A'', ''B''] [''C''],
      sb_level_dict = [], furthest_log_time = 0, nearest_log_time = 7200000000,
      known_guild_join_dates = [(''B'', 6600000000)],
      active_igns = [''A''], inactive_igns = [''C''], grace_period_igns = [''B''],
      raw_to_boiled_promotion_igns = [''A''], boiled_to_scrambled_promotion_igns = []\<rparr>"

definition report_two_sessions :: report where
  "report_two_sessions =
     \<lparr>active_printed = [''A''], grace_period_printed = [''B''], inactive_printed = [''C''],
      raw_warning = Some [''A''], raw_printed = [],
      boiled_warning = None, boiled_printed = []\<rparr>"

section \<open>Properties of the session loop\<close>

subsection \<open>Notions used in the proofs\<close>

text \<open>
  The session the loop body works on, the condition under which a join raises, and the
  new session after a leave (the same text as in \<^const>\<open>parse_log\<close>).
  \<open>forget_lists\<close> empties the five lists a run computes.
  \<open>joined\<close> says that every stored session has a last join; \<open>mono_state b\<close> that
  in every stored session the long joins increase strictly and none is later than the
  last join, which is no later than \<open>b\<close>.
\<close>

definition session_of :: "tracker \<Rightarrow> ign \<Rightarrow> session" where
  "session_of self i =
     (case map_of (activity self) i of
        None \<Rightarrow> \<lparr>last_join = None, last_leave = None, last_long_join = []\<rparr>
      | Some a \<Rightarrow> a)"

definition join_raises :: "session \<Rightarrow> datetime \<Rightarrow> bool" where
  "join_raises a t \<longleftrightarrow>
     (case last_leave a of
        None \<Rightarrow> False
      | Some l \<Rightarrow> is_time_within_mins l t MINS_FOR_RECONNECT_TIMEOUT \<and> last_join a = None)"

definition joined :: "tracker \<Rightarrow> bool" where
  "joined self \<longleftrightarrow> (\<forall>i a. map_of (activity self) i = Some a \<longrightarrow> last_join a \<noteq> None)"

definition mono_session :: "datetime \<Rightarrow> session \<Rightarrow> bool" where
  "mono_session b a \<longleftrightarrow>
     sorted_wrt (<) (last_long_join a)
     \<and> (case last_join a of
          None \<Rightarrow> last_long_join a = []
        | Some j \<Rightarrow> j \<le> b \<and> (\<forall>x \<in> set (last_long_join a). x \<le> j))"

definition mono_state :: "datetime \<Rightarrow> tracker \<Rightarrow> bool" where
  "mono_state b self \<longleftrightarrow>
     furthest_log_time self \<le> b
     \<and> (\<forall>i a. map_of (activity self) i = Some a \<longrightarrow> mono_session b a)"

definition forget_lists :: "tracker \<Rightarrow> tracker" where
  "forget_lists self = self\<lparr>active_igns := [], inactive_igns := [], grace_period_igns := [],
     raw_to_boiled_promotion_igns := [], boiled_to_scrambled_promotion_igns := []\<rparr>"

definition leave_session :: "datetime \<Rightarrow> session \<Rightarrow> datetime \<Rightarrow> session" where
  "leave_session f a t =
     (let a1 = a\<lparr>last_leave := Some t\<rparr>;
          last_join_timestamp = (case last_join a1 of None \<Rightarrow> f | Some j \<Rightarrow> j);
          a2 = (case last_join a1 of None \<Rightarrow> a1\<lparr>last_join := Some f\<rparr> | Some j \<Rightarrow> a1)
      in if \<not> is_time_within_mins last_join_timestamp t MINS_FOR_LONG_JOIN then
           (if length (last_long_join a2) = 0
               \<or> Some (last (last_long_join a2)) \<noteq> last_join a2
            then a2\<lparr>last_long_join := last_long_join a2 @ [last_join_timestamp]\<rparr>
            else a2)
         else a2)"

subsection \<open>Time\<close>

lemma seconds_bounds: "0 \<le> seconds d \<and> seconds d < 86400"
  by (simp add: seconds_def)

lemma within_join_log_timeout: "is_time_within_mins s e MINS_FOR_JOIN_LOG_TIMEOUT"
  using seconds_bounds [of "e - s"]
  by (simp add: is_time_within_mins_def MINS_FOR_JOIN_LOG_TIMEOUT_def)

text \<open>For a span of less than a day the test for a long join is the test on the whole span.\<close>

lemma long_join_within_a_day:
  assumes "0 \<le> e - s" "e - s < timedelta_minutes (24 * 60)"
  shows "(\<not> is_time_within_mins s e MINS_FOR_LONG_JOIN)
     = (timedelta_minutes MINS_FOR_LONG_JOIN \<le> e - s)"
proof -
  have "(e - s) div 1000000 < 86400" and "0 \<le> (e - s) div 1000000"
    using assms by (simp_all add: timedelta_minutes_def)
  then have "seconds (e - s) = (e - s) div 1000000"
    by (simp add: seconds_def)
  then show ?thesis
    by (simp add: is_time_within_mins_def MINS_FOR_LONG_JOIN_def timedelta_minutes_def) linarith
qed

subsection \<open>One entry\<close>

lemma parse_log_join:
  assumes "get_is_join lg"
  shows "parse_log g lg (self, G) =
     (if join_raises (session_of self (get_ign lg)) (get_timestamp lg) then Inl TypeError
      else Inr (self\<lparr>activity :=
                    AList.update (get_ign lg)
                      ((session_of self (get_ign lg))\<lparr>last_join := Some (get_timestamp lg)\<rparr>)
                      (activity self),
                  known_guild_join_dates :=
                    (if get_is_guild_join lg
                     then AList.update (get_ign lg) (get_timestamp lg) (known_guild_join_dates self)
                     else known_guild_join_dates self)\<rparr>,
                if get_is_guild_join lg \<and> g \<le> get_timestamp lg then List.insert (get_ign lg) G
                else G))"
  using assms
  by (simp add: parse_log_def Let_def join_raises_def session_of_def [symmetric]
        within_join_log_timeout split: option.split)

lemma parse_log_leave:
  assumes "\<not> get_is_join lg"
  shows "parse_log g lg (self, G) =
     Inr (self\<lparr>activity :=
                 AList.update (get_ign lg)
                   (leave_session (furthest_log_time self) (session_of self (get_ign lg))
                      (get_timestamp lg))
                   (activity self)\<rparr>, G)"
  using assms
  by (simp add: parse_log_def Let_def leave_session_def session_of_def [symmetric])

lemma leave_session_fields:
  "last_leave (leave_session f a t) = Some t"
  "last_join (leave_session f a t) = Some (case last_join a of None \<Rightarrow> f | Some j \<Rightarrow> j)"
  "last_long_join (leave_session f a t) =
     (let j = (case last_join a of None \<Rightarrow> f | Some j \<Rightarrow> j)
      in if \<not> is_time_within_mins j t MINS_FOR_LONG_JOIN
            \<and> (last_long_join a = [] \<or> last (last_long_join a) \<noteq> j)
         then last_long_join a @ [j] else last_long_join a)"
  by (simp_all add: leave_session_def Let_def split: option.split)

lemma parse_log_activity:
  assumes "parse_log g lg (self, G) = Inr (self', G')"
  shows "\<exists>a'. activity self' = AList.update (get_ign lg) a' (activity self)"
proof (cases "get_is_join lg")
  case True
  with assms show ?thesis
    by (auto simp: parse_log_join split: if_splits)
next
  case False
  with assms show ?thesis
    by (auto simp: parse_log_leave)
qed

lemma parse_log_keys:
  assumes "parse_log g lg (self, G) = Inr (self', G')"
  shows "fst ` set (activity self') = insert (get_ign lg) (fst ` set (activity self))"
proof -
  from parse_log_activity [OF assms] obtain a' where
    "activity self' = AList.update (get_ign lg) a' (activity self)" ..
  then show ?thesis
    by (simp add: dom_update)
qed

lemma parse_log_distinct:
  assumes "parse_log g lg (self, G) = Inr (self', G')" "distinct (map fst (activity self))"
  shows "distinct (map fst (activity self'))"
  using parse_log_activity [OF assms(1)] assms(2) by (auto simp: distinct_update)

lemma parse_log_frame:
  assumes "parse_log g lg (self, G) = Inr (self', G')"
  shows "guild_list_dict self' = guild_list_dict self \<and> sb_level_dict self' = sb_level_dict self
    \<and> furthest_log_time self' = furthest_log_time self
    \<and> nearest_log_time self' = nearest_log_time self"
proof (cases "get_is_join lg")
  case True
  with assms show ?thesis
    by (auto simp: parse_log_join split: if_splits)
next
  case False
  with assms show ?thesis
    by (auto simp: parse_log_leave)
qed

lemma parse_log_grace:
  assumes "parse_log g lg (self, G) = Inr (self', G')"
  shows "set G \<subseteq> set G' \<and> set G' \<subseteq> insert (get_ign lg) (set G)"
proof (cases "get_is_join lg")
  case True
  with assms show ?thesis
    by (auto simp: parse_log_join split: if_splits)
next
  case False
  with assms show ?thesis
    by (auto simp: parse_log_leave)
qed

lemma parse_log_grace_set:
  assumes "parse_log g lg (self, G) = Inr (self', G')"
  shows "set G' = set G \<union>
     (if get_is_join lg \<and> get_is_guild_join lg \<and> g \<le> get_timestamp lg then {get_ign lg}
      else {})"
proof (cases "get_is_join lg")
  case True
  with assms show ?thesis
    by (auto simp: parse_log_join split: if_splits)
next
  case False
  with assms show ?thesis
    by (auto simp: parse_log_leave)
qed

lemma joined_no_raise: "joined self \<Longrightarrow> \<not> join_raises (session_of self i) t"
  by (auto simp: joined_def join_raises_def session_of_def split: option.splits)

lemma parse_log_joined:
  assumes "parse_log g lg (self, G) = Inr (self', G')" "joined self"
  shows "joined self'"
proof (cases "get_is_join lg")
  case True
  with assms show ?thesis
    by (auto simp: parse_log_join joined_def update_conv' split: if_splits)
next
  case False
  with assms show ?thesis
    by (auto simp: parse_log_leave joined_def update_conv' leave_session_fields split: if_splits)
qed

lemma parse_log_no_raise:
  assumes "joined self"
  shows "\<exists>st'. parse_log g lg (self, G) = Inr st'"
  using joined_no_raise [OF assms]
  by (cases "get_is_join lg") (simp_all add: parse_log_join parse_log_leave)

subsection \<open>The whole log\<close>

lemma parse_logs_keys:
  "parse_logs g lgs (self, G) = Inr (self', G') \<Longrightarrow>
   fst ` set (activity self') = fst ` set (activity self) \<union> get_ign ` set lgs"
proof (induction lgs arbitrary: self G)
  case Nil
  then show ?case by simp
next
  case (Cons lg lgs)
  from Cons.prems obtain self1 G1 where
    step: "parse_log g lg (self, G) = Inr (self1, G1)"
    and rest: "parse_logs g lgs (self1, G1) = Inr (self', G')"
    by (auto split: sum.splits)
  show ?case
    using Cons.IH [OF rest] parse_log_keys [OF step] by auto
qed

lemma parse_logs_distinct:
  "parse_logs g lgs (self, G) = Inr (self', G') \<Longrightarrow> distinct (map fst (activity self)) \<Longrightarrow>
   distinct (map fst (activity self'))"
proof (induction lgs arbitrary: self G)
  case Nil
  then show ?case by simp
next
  case (Cons lg lgs)
  from Cons.prems(1) obtain self1 G1 where
    step: "parse_log g lg (self, G) = Inr (self1, G1)"
    and rest: "parse_logs g lgs (self1, G1) = Inr (self', G')"
    by (auto split: sum.splits)
  show ?case
    using Cons.IH [OF rest] parse_log_distinct [OF step Cons.prems(2)] by simp
qed

lemma parse_logs_frame:
  "parse_logs g lgs (self, G) = Inr (self', G') \<Longrightarrow>
   guild_list_dict self' = guild_list_dict self \<and> sb_level_dict self' = sb_level_dict self
    \<and> furthest_log_time self' = furthest_log_time self
    \<and> nearest_log_time self' = nearest_log_time self"
proof (induction lgs arbitrary: self G)
  case Nil
  then show ?case by simp
next
  case (Cons lg lgs)
  from Cons.prems(1) obtain self1 G1 where
    step: "parse_log g lg (self, G) = Inr (self1, G1)"
    and rest: "parse_logs g lgs (self1, G1) = Inr (self', G')"
    by (auto split: sum.splits)
  show ?case
    using Cons.IH [OF rest] parse_log_frame [OF step] by simp
qed

lemma parse_logs_grace:
  "parse_logs g lgs (self, G) = Inr (self', G') \<Longrightarrow>
   set G \<subseteq> set G' \<and> set G' \<subseteq> set G \<union> get_ign ` set lgs"
proof (induction lgs arbitrary: self G)
  case Nil
  then show ?case by simp
next
  case (Cons lg lgs)
  from Cons.prems(1) obtain self1 G1 where
    step: "parse_log g lg (self, G) = Inr (self1, G1)"
    and rest: "parse_logs g lgs (self1, G1) = Inr (self', G')"
    by (auto split: sum.splits)
  show ?case
    using Cons.IH [OF rest] parse_log_grace [OF step] by auto
qed

lemma parse_logs_grace_set:
  "parse_logs g lgs (self, G) = Inr (self', G') \<Longrightarrow>
   set G' = set G \<union>
     {get_ign lg | lg. lg \<in> set lgs \<and> get_is_join lg \<and> get_is_guild_join lg
        \<and> g \<le> get_timestamp lg}"
proof (induction lgs arbitrary: self G)
  case Nil
  then show ?case by simp
next
  case (Cons lg lgs)
  from Cons.prems obtain self1 G1 where
    step: "parse_log g lg (self, G) = Inr (self1, G1)"
    and rest: "parse_logs g lgs (self1, G1) = Inr (self', G')"
    by (auto split: sum.splits)
  show ?case
    unfolding Cons.IH [OF rest] parse_log_grace_set [OF step] by auto
qed

lemma parse_logs_joined:
  "parse_logs g lgs (self, G) = Inr (self', G') \<Longrightarrow> joined self \<Longrightarrow> joined self'"
proof (induction lgs arbitrary: self G)
  case Nil
  then show ?case by simp
next
  case (Cons lg lgs)
  from Cons.prems(1) obtain self1 G1 where
    step: "parse_log g lg (self, G) = Inr (self1, G1)"
    and rest: "parse_logs g lgs (self1, G1) = Inr (self', G')"
    by (auto split: sum.splits)
  show ?case
    using Cons.IH [OF rest] parse_log_joined [OF step Cons.prems(2)] by simp
qed

lemma parse_logs_no_raise:
  "joined self \<Longrightarrow> \<exists>st'. parse_logs g lgs (self, G) = Inr st'"
proof (induction lgs arbitrary: self G)
  case Nil
  then show ?case by simp
next
  case (Cons lg lgs)
  from parse_log_no_raise [OF Cons.prems] obtain self1 G1 where
    step: "parse_log g lg (self, G) = Inr (self1, G1)"
    by fastforce
  from parse_log_joined [OF step Cons.prems] have "joined self1" .
  from Cons.IH [OF this] show ?case
    using step by simp
qed

subsection \<open>Long joins in increasing order\<close>

lemma mono_session_le: "mono_session b a \<Longrightarrow> b \<le> t \<Longrightarrow> mono_session t a"
  by (auto simp: mono_session_def split: option.splits)

lemma mono_session_join:
  "mono_session b a \<Longrightarrow> b \<le> t \<Longrightarrow> mono_session t (a\<lparr>last_join := Some t\<rparr>)"
  by (fastforce simp: mono_session_def split: option.splits)

lemma sorted_wrt_less_snoc:
  fixes j :: int
  assumes "sorted_wrt (<) xs" "\<forall>x \<in> set xs. x \<le> j" "xs = [] \<or> last xs \<noteq> j"
  shows "sorted_wrt (<) (xs @ [j])"
proof (cases "xs = []")
  case True
  then show ?thesis by simp
next
  case False
  from assms(2,3) False have "last xs < j"
    by (simp add: order_less_le)
  moreover from assms(1) have "sorted_wrt (<) (butlast xs @ [last xs])"
    by (simp only: append_butlast_last_id [OF False])
  then have "\<forall>x \<in> set (butlast xs). x < last xs"
    by (simp add: sorted_wrt_append)
  moreover have "set (butlast xs @ [last xs]) = set xs"
    by (simp only: append_butlast_last_id [OF False])
  then have "set xs = insert (last xs) (set (butlast xs))"
    by simp
  ultimately have "\<forall>x \<in> set xs. x < j"
    by fastforce
  with assms(1) show ?thesis
    by (simp add: sorted_wrt_append)
qed

lemma mono_session_leave:
  assumes "mono_session b a" "b \<le> t" "f \<le> b"
  shows "mono_session t (leave_session f a t)"
proof -
  define j where "j = (case last_join a of None \<Rightarrow> f | Some j \<Rightarrow> j)"
  have j: "j \<le> t" and le: "\<forall>x \<in> set (last_long_join a). x \<le> j"
    and srt: "sorted_wrt (<) (last_long_join a)"
    using assms by (auto simp: j_def mono_session_def split: option.splits)
  have "sorted_wrt (<) (last_long_join (leave_session f a t))"
    using srt le sorted_wrt_less_snoc [of "last_long_join a" j]
    by (simp add: leave_session_fields j_def [symmetric] Let_def)
  moreover have "\<forall>x \<in> set (last_long_join (leave_session f a t)). x \<le> j"
    using le by (simp add: leave_session_fields j_def [symmetric] Let_def)
  ultimately show ?thesis
    using j by (simp add: mono_session_def leave_session_fields(2) j_def [symmetric])
qed

lemma mono_session_of:
  assumes "mono_state b self"
  shows "mono_session b (session_of self i)"
proof (cases "map_of (activity self) i")
  case None
  then show ?thesis
    by (simp add: session_of_def mono_session_def)
next
  case (Some a)
  with assms show ?thesis
    by (simp add: session_of_def mono_state_def)
qed

lemma parse_log_mono:
  assumes "mono_state b self" "b \<le> get_timestamp lg"
    and "parse_log g lg (self, G) = Inr (self', G')"
  shows "mono_state (get_timestamp lg) self'"
proof -
  have others: "mono_session (get_timestamp lg) a" if "map_of (activity self) i = Some a" for i a
  proof -
    from assms(1) that have "mono_session b a"
      by (simp add: mono_state_def)
    then show ?thesis
      using assms(2) by (rule mono_session_le)
  qed
  have f: "furthest_log_time self \<le> b"
    using assms(1) by (simp add: mono_state_def)
  show ?thesis
  proof (cases "get_is_join lg")
    case True
    with assms(3) show ?thesis
      using mono_session_join [OF mono_session_of [OF assms(1)] assms(2)] others f assms(2)
      by (auto simp: parse_log_join mono_state_def update_conv' split: if_splits)
  next
    case False
    with assms(3) show ?thesis
      using mono_session_leave [OF mono_session_of [OF assms(1)] assms(2) f] others f assms(2)
      by (auto simp: parse_log_leave mono_state_def update_conv' split: if_splits)
  qed
qed

lemma parse_logs_mono:
  "mono_state b self \<Longrightarrow> sorted (map get_timestamp lgs) \<Longrightarrow>
   \<forall>lg \<in> set lgs. b \<le> get_timestamp lg \<Longrightarrow>
   parse_logs g lgs (self, G) = Inr (self', G') \<Longrightarrow> \<exists>b'. mono_state b' self'"
proof (induction lgs arbitrary: b self G)
  case Nil
  then show ?case by auto
next
  case (Cons lg lgs)
  from Cons.prems(4) obtain self1 G1 where
    step: "parse_log g lg (self, G) = Inr (self1, G1)"
    and rest: "parse_logs g lgs (self1, G1) = Inr (self', G')"
    by (auto split: sum.splits)
  have "mono_state (get_timestamp lg) self1"
    using parse_log_mono [OF Cons.prems(1) _ step] Cons.prems(3) by simp
  moreover have "sorted (map get_timestamp lgs)"
    and "\<forall>l \<in> set lgs. get_timestamp lg \<le> get_timestamp l"
    using Cons.prems(2) by simp_all
  ultimately show ?case
    using Cons.IH [OF _ _ _ rest] by blast
qed

section \<open>Properties of the lists and of a run\<close>

lemma last_join_keys_fst:
  "last_join_keys self igns = Inr ks \<Longrightarrow> map fst ks = igns"
  by (induction igns arbitrary: ks) (auto split: option.splits sum.splits)

lemma last_join_keys_snd:
  "last_join_keys self igns = Inr ks \<Longrightarrow> (i, k) \<in> set ks \<Longrightarrow>
   \<exists>a. map_of (activity self) i = Some a \<and> k = last_join a"
  by (induction igns arbitrary: ks) (auto split: option.splits sum.splits)

lemma last_join_keys_defined:
  "\<forall>i \<in> set igns. map_of (activity self) i \<noteq> None \<Longrightarrow> \<exists>ks. last_join_keys self igns = Inr ks"
  by (induction igns) (auto split: option.splits sum.splits)

lemma sorted_by_last_join_set:
  assumes "sorted_by_last_join self igns = Inr ys"
  shows "set ys = set igns"
proof -
  from assms obtain ks where ks: "last_join_keys self igns = Inr ks"
    and ys: "ys = map fst (sort_key (\<lambda>(i, k). case k of None \<Rightarrow> 0 | Some t \<Rightarrow> - t) ks)"
    by (auto simp: sorted_by_last_join_def split: sum.splits if_splits)
  have "set ys = set (map fst ks)"
    unfolding ys by simp
  with last_join_keys_fst [OF ks] show ?thesis by simp
qed

lemma sorted_by_last_join_defined:
  assumes "joined self" "set igns \<subseteq> fst ` set (activity self)"
  shows "\<exists>ys. sorted_by_last_join self igns = Inr ys"
proof -
  have "\<forall>i \<in> set igns. map_of (activity self) i \<noteq> None"
    using assms(2) by (auto simp: map_of_eq_None_iff)
  from last_join_keys_defined [OF this] obtain ks where ks: "last_join_keys self igns = Inr ks" ..
  have "\<not> list_ex (\<lambda>(i, k). k = None) ks"
    using last_join_keys_snd [OF ks] assms(1)
    by (fastforce simp: list_ex_iff joined_def)
  with ks show ?thesis
    by (simp add: sorted_by_last_join_def)
qed

lemma get_active_igns_keys: "set (get_active_igns self) \<subseteq> fst ` set (activity self)"
  by (auto simp: get_active_igns_def)

lemma sort_categories_sets:
  assumes "sort_categories self G gl = Inr self'"
  shows "set (active_igns self') = set (get_active_igns self) \<inter> set gl"
    and "set (grace_period_igns self') = set G \<inter> set gl - set (get_active_igns self)"
    and "set (inactive_igns self') =
           set gl - set (get_active_igns self) - set (grace_period_igns self')"
    and "self' = self\<lparr>active_igns := active_igns self', inactive_igns := inactive_igns self',
            grace_period_igns := grace_period_igns self'\<rparr>"
proof -
  obtain active0 where a0: "sorted_by_last_join self (get_active_igns self) = Inr active0"
    using assms
    by (cases "sorted_by_last_join self (get_active_igns self)")
      (simp_all add: sort_categories_def)
  obtain inactive_seen where
    i0: "sorted_by_last_join self [i \<leftarrow> map fst (activity self). i \<notin> set active0]
           = Inr inactive_seen"
    using assms
    by (cases "sorted_by_last_join self [i \<leftarrow> map fst (activity self). i \<notin> set active0]")
      (simp_all add: sort_categories_def a0)
  obtain grace0 where g0: "sorted_by_last_join self G = Inr grace0"
    using assms
    by (cases "sorted_by_last_join self G") (simp_all add: sort_categories_def a0 i0 Let_def)
  have self': "self' = self\<lparr>
        active_igns := [i \<leftarrow> active0. i \<in> set gl],
        inactive_igns :=
          [i \<leftarrow> [i \<leftarrow> inactive_seen
                         @ sort [i \<leftarrow> gl. i \<notin> set (map fst (activity self))].
                     i \<in> set gl].
             i \<notin> set [i \<leftarrow> [i \<leftarrow> grace0. i \<in> set gl].
                         i \<notin> set [i \<leftarrow> active0. i \<in> set gl]]],
        grace_period_igns :=
          [i \<leftarrow> [i \<leftarrow> grace0. i \<in> set gl]. i \<notin> set [i \<leftarrow> active0. i \<in> set gl]]\<rparr>"
    using assms unfolding sort_categories_def a0 i0 g0 Let_def sum.case sum.inject
    by (rule sym)
  note sets = sorted_by_last_join_set [OF a0] sorted_by_last_join_set [OF i0]
    sorted_by_last_join_set [OF g0]
  show "set (active_igns self') = set (get_active_igns self) \<inter> set gl"
    unfolding self' using sets by auto
  show g: "set (grace_period_igns self') = set G \<inter> set gl - set (get_active_igns self)"
    unfolding self' using sets by auto
  have "set (inactive_igns self') =
      (set inactive_seen \<union> (set gl - fst ` set (activity self))) \<inter> set gl
      - set (grace_period_igns self')"
    unfolding self' by auto
  also have "\<dots> = set gl - set (get_active_igns self) - set (grace_period_igns self')"
    using sets(1,2) get_active_igns_keys [of self] by auto
  finally show "set (inactive_igns self') =
           set gl - set (get_active_igns self) - set (grace_period_igns self')" .
  show "self' = self\<lparr>active_igns := active_igns self', inactive_igns := inactive_igns self',
            grace_period_igns := grace_period_igns self'\<rparr>"
    unfolding self' by simp
qed

lemma sort_categories_defined:
  assumes "joined self" "set G \<subseteq> fst ` set (activity self)"
  shows "\<exists>self'. sort_categories self G gl = Inr self'"
proof -
  from sorted_by_last_join_defined [OF assms(1) get_active_igns_keys]
  obtain active0 where a0: "sorted_by_last_join self (get_active_igns self) = Inr active0" ..
  have "set [i \<leftarrow> map fst (activity self). i \<notin> set active0] \<subseteq> fst ` set (activity self)"
    by auto
  from sorted_by_last_join_defined [OF assms(1) this]
  obtain inactive_seen where
    i0: "sorted_by_last_join self [i \<leftarrow> map fst (activity self). i \<notin> set active0]
           = Inr inactive_seen" ..
  from sorted_by_last_join_defined [OF assms]
  obtain grace0 where g0: "sorted_by_last_join self G = Inr grace0" ..
  show ?thesis
    by (simp add: sort_categories_def a0 i0 g0 Let_def)
qed

lemma filter_raising_Inr:
  "filter_raising p xs = Inr ys \<Longrightarrow> ys = filter (\<lambda>x. p x = Inr True) xs"
  by (induction xs arbitrary: ys) (auto split: sum.splits)

lemma filter_raising_defined:
  "\<forall>x \<in> set xs. \<exists>b. p x = Inr b \<Longrightarrow> \<exists>ys. filter_raising p xs = Inr ys"
  by (induction xs) (auto split: sum.splits)

lemma promotion_test_defined:
  assumes "set (active_igns self) \<subseteq> fst ` set (activity self)"
  shows "\<exists>b. promotion_test self n s e i = Inr b"
proof (cases "i \<in> set (active_igns self)")
  case True
  with assms have "map_of (activity self) i \<noteq> None"
    by (auto simp: map_of_eq_None_iff)
  with True show ?thesis
    by (auto simp: promotion_test_def)
next
  case False
  then show ?thesis
    by (auto simp: promotion_test_def)
qed

lemma get_raw_to_boiled_promotion_igns_defined:
  assumes "set (active_igns self) \<subseteq> fst ` set (activity self)"
    "map_of (guild_list_dict self) ''Raw Egg'' \<noteq> None"
  shows "\<exists>raw. get_raw_to_boiled_promotion_igns self today = Inr raw"
proof -
  from assms(2) obtain raw_igns where
    r: "map_of (guild_list_dict self) ''Raw Egg'' = Some raw_igns"
    by auto
  show ?thesis
    unfolding get_raw_to_boiled_promotion_igns_def r option.case Let_def
    by (rule filter_raising_defined) (simp add: promotion_test_defined [OF assms(1)])
qed

lemma get_boiled_to_scrambled_promotion_igns_defined:
  assumes "set (active_igns self) \<subseteq> fst ` set (activity self)"
    "map_of (guild_list_dict self) ''Hard Boiled Egg'' \<noteq> None"
  shows "\<exists>boiled. get_boiled_to_scrambled_promotion_igns self today = Inr boiled"
proof -
  from assms(2) obtain boiled_igns where
    b: "map_of (guild_list_dict self) ''Hard Boiled Egg'' = Some boiled_igns"
    by auto
  show ?thesis
    unfolding get_boiled_to_scrambled_promotion_igns_def b option.case Let_def
  proof (rule filter_raising_defined, rule ballI)
    fix i
    from promotion_test_defined [OF assms(1)] obtain c where
      "promotion_test self NUM_LONG_JOINS_FOR_BOILED_PROMOTION
         (nearest_log_time self - timedelta_minutes MINS_FOR_BOILED_PROMOTION_ACTIVITY_RANGE)
         (today - timedelta_minutes MINS_FOR_BOILED_JOIN_DATE_PROMOTION_RANGE) i = Inr c"
      by blast
    then show "\<exists>b. (case promotion_test self NUM_LONG_JOINS_FOR_BOILED_PROMOTION
         (nearest_log_time self - timedelta_minutes MINS_FOR_BOILED_PROMOTION_ACTIVITY_RANGE)
         (today - timedelta_minutes MINS_FOR_BOILED_JOIN_DATE_PROMOTION_RANGE) i of
         Inl e \<Rightarrow> Inl e
       | Inr b \<Rightarrow> Inr (b \<and> SCRAMBLED_SB_LEVEL
            \<le> (case map_of (sb_level_dict self) i of None \<Rightarrow> - 1 | Some l \<Rightarrow> l))) = Inr b"
      by simp
  qed
qed

text \<open>A run that has read its three files and found the log non-empty.\<close>

lemma calculate_activity_loaded:
  assumes "json_load fs log_file = Some logs" "logs \<noteq> []"
    "guild_list_file fs = Some gl" "sb_level_list_file fs = Some sb"
  shows "calculate_activity self log_file fs today =
     (case parse_logs (get_timestamp (hd logs) - timedelta_minutes MINS_FOR_ACTIVITY_RANGE) logs
             (self\<lparr>guild_list_dict := gl, sb_level_dict := sb,
                    furthest_log_time := get_timestamp (hd logs),
                    nearest_log_time := get_timestamp (last logs),
                    known_guild_join_dates := []\<rparr>, []) of
        Inl e \<Rightarrow> ([Guild_list gl], Inl e)
      | Inr (self4, igns_in_grace_period) \<Rightarrow>
     (case sort_categories self4 igns_in_grace_period (concat (map snd gl)) of
        Inl e \<Rightarrow> ([Guild_list gl], Inl e)
      | Inr self5 \<Rightarrow>
     (case get_raw_to_boiled_promotion_igns self5 today of
        Inl e \<Rightarrow> ([Guild_list gl], Inl e)
      | Inr raw \<Rightarrow>
     (case get_boiled_to_scrambled_promotion_igns
             (self5\<lparr>raw_to_boiled_promotion_igns := raw\<rparr>) today of
        Inl e \<Rightarrow> ([Guild_list gl], Inl e)
      | Inr boiled \<Rightarrow>
          ([Guild_list gl,
            Activity_log (print_activity_log
             (self5\<lparr>raw_to_boiled_promotion_igns := raw,
                     boiled_to_scrambled_promotion_igns := boiled\<rparr>))],
           Inr (self5\<lparr>raw_to_boiled_promotion_igns := raw,
                     boiled_to_scrambled_promotion_igns := boiled\<rparr>))))))"
  using assms
  by (simp add: calculate_activity_def Let_def list.case_eq_if split: sum.split prod.split)

text \<open>What a run that does not raise has gone through.\<close>

lemma calculate_activity_Inr:
  assumes "calculate_activity self log_file fs today = (out, Inr self')"
  obtains logs gl sb self4 G self5 raw boiled where
    "json_load fs log_file = Some logs" "logs \<noteq> []"
    "guild_list_file fs = Some gl" "sb_level_list_file fs = Some sb"
    "parse_logs (get_timestamp (hd logs) - timedelta_minutes MINS_FOR_ACTIVITY_RANGE) logs
       (self\<lparr>guild_list_dict := gl, sb_level_dict := sb,
              furthest_log_time := get_timestamp (hd logs),
              nearest_log_time := get_timestamp (last logs),
              known_guild_join_dates := []\<rparr>, []) = Inr (self4, G)"
    "sort_categories self4 G (concat (map snd gl)) = Inr self5"
    "get_raw_to_boiled_promotion_igns self5 today = Inr raw"
    "get_boiled_to_scrambled_promotion_igns (self5\<lparr>raw_to_boiled_promotion_igns := raw\<rparr>)
       today = Inr boiled"
    "self' = self5\<lparr>raw_to_boiled_promotion_igns := raw,
                        boiled_to_scrambled_promotion_igns := boiled\<rparr>"
    "out = [Guild_list gl, Activity_log (print_activity_log self')]"
proof -
  obtain logs where logs: "json_load fs log_file = Some logs"
    using assms by (cases "json_load fs log_file") (simp_all add: calculate_activity_def)
  obtain gl where gl: "guild_list_file fs = Some gl"
    using assms by (cases "guild_list_file fs") (simp_all add: calculate_activity_def logs)
  obtain sb where sb: "sb_level_list_file fs = Some sb"
    using assms
    by (cases "sb_level_list_file fs") (simp_all add: calculate_activity_def logs gl Let_def)
  have ne: "logs \<noteq> []"
    using assms by (cases logs) (simp_all add: calculate_activity_def logs gl sb Let_def)
  define self3 where "self3 = self\<lparr>guild_list_dict := gl, sb_level_dict := sb,
              furthest_log_time := get_timestamp (hd logs),
              nearest_log_time := get_timestamp (last logs),
              known_guild_join_dates := []\<rparr>"
  define g where "g = get_timestamp (hd logs) - timedelta_minutes MINS_FOR_ACTIVITY_RANGE"
  note run = calculate_activity_loaded [OF logs ne gl sb, of self today,
      folded self3_def g_def]
  obtain self4 G where p: "parse_logs g logs (self3, []) = Inr (self4, G)"
    using assms unfolding run by (cases "parse_logs g logs (self3, [])") auto
  obtain self5 where s: "sort_categories self4 G (concat (map snd gl)) = Inr self5"
    using assms unfolding run p
    by (cases "sort_categories self4 G (concat (map snd gl))") auto
  obtain raw where r: "get_raw_to_boiled_promotion_igns self5 today = Inr raw"
    using assms unfolding run p
    by (cases "get_raw_to_boiled_promotion_igns self5 today") (auto simp: s)
  obtain boiled where
    b: "get_boiled_to_scrambled_promotion_igns
          (self5\<lparr>raw_to_boiled_promotion_igns := raw\<rparr>) today = Inr boiled"
    using assms unfolding run p
    by (cases "get_boiled_to_scrambled_promotion_igns
                 (self5\<lparr>raw_to_boiled_promotion_igns := raw\<rparr>) today")
      (auto simp: s r)
  have "self' = self5\<lparr>raw_to_boiled_promotion_igns := raw,
                        boiled_to_scrambled_promotion_igns := boiled\<rparr>"
    and "out = [Guild_list gl, Activity_log (print_activity_log self')]"
    using assms unfolding run p by (auto simp: s r b)
  with that logs gl sb ne p s r b show thesis
    unfolding self3_def g_def by blast
qed

text \<open>
  A run on a tracker whose sessions all have a last join (a fresh tracker, or one left by
  an earlier run) raises only for a file that cannot be read, an empty log or a rank
  missing from the guild list.
\<close>

lemma calculate_activity_defined:
  assumes "joined self"
    and "json_load fs log_file = Some logs" "logs \<noteq> []"
    and "guild_list_file fs = Some gl" "sb_level_list_file fs = Some sb"
    and "map_of gl ''Raw Egg'' \<noteq> None" "map_of gl ''Hard Boiled Egg'' \<noteq> None"
  shows "\<exists>out self'. calculate_activity self log_file fs today = (out, Inr self')"
proof -
  define self3 where "self3 = self\<lparr>guild_list_dict := gl, sb_level_dict := sb,
              furthest_log_time := get_timestamp (hd logs),
              nearest_log_time := get_timestamp (last logs),
              known_guild_join_dates := []\<rparr>"
  define g where "g = get_timestamp (hd logs) - timedelta_minutes MINS_FOR_ACTIVITY_RANGE"
  note run = calculate_activity_loaded [OF assms(2-5), of self today, folded self3_def g_def]
  have j3: "joined self3"
    using assms(1) by (simp add: joined_def self3_def)
  from parse_logs_no_raise [OF j3] obtain self4 G where
    p: "parse_logs g logs (self3, []) = Inr (self4, G)"
    by fastforce
  have j4: "joined self4"
    using parse_logs_joined [OF p j3] .
  have G: "set G \<subseteq> fst ` set (activity self4)"
    using parse_logs_grace [OF p] parse_logs_keys [OF p] by auto
  from sort_categories_defined [OF j4 G] obtain self5 where
    s: "sort_categories self4 G (concat (map snd gl)) = Inr self5"
    by blast
  note s5 = sort_categories_sets [OF s]
  have act5: "activity self5 = activity self4"
    by (subst s5(4)) simp
  have "guild_list_dict self5 = guild_list_dict self4"
    by (subst s5(4)) simp
  also have "\<dots> = guild_list_dict self3"
    using parse_logs_frame [OF p] by simp
  finally have gld5: "guild_list_dict self5 = gl"
    by (simp add: self3_def)
  have a5: "set (active_igns self5) \<subseteq> fst ` set (activity self5)"
    using s5(1) get_active_igns_keys [of self4] act5 by auto
  from get_raw_to_boiled_promotion_igns_defined [OF a5] assms(6) gld5 obtain raw where
    r: "get_raw_to_boiled_promotion_igns self5 today = Inr raw"
    by fastforce
  have "\<exists>boiled. get_boiled_to_scrambled_promotion_igns
          (self5\<lparr>raw_to_boiled_promotion_igns := raw\<rparr>) today = Inr boiled"
    using a5 assms(7) gld5
    by (intro get_boiled_to_scrambled_promotion_igns_defined) simp_all
  then obtain boiled where
    b: "get_boiled_to_scrambled_promotion_igns
          (self5\<lparr>raw_to_boiled_promotion_igns := raw\<rparr>) today = Inr boiled" ..
  show ?thesis
    unfolding run p by (simp add: s r b)
qed

text \<open>The activity lists are printed by runs that do not raise, and only by them.\<close>

lemma calculate_activity_printed:
  assumes "Activity_log r \<in> set (fst (calculate_activity self log_file fs today))"
  obtains out self' where "calculate_activity self log_file fs today = (out, Inr self')"
    and "r = print_activity_log self'"
proof (cases "snd (calculate_activity self log_file fs today)")
  case (Inl e)
  have "fst (calculate_activity self log_file fs today) = []
      \<or> (\<exists>gl. fst (calculate_activity self log_file fs today) = [Guild_list gl])"
    using Inl
    by (auto simp: calculate_activity_def Let_def
        split: option.splits list.splits sum.splits prod.splits)
  with assms show ?thesis by auto
next
  case (Inr self')
  then have run: "calculate_activity self log_file fs today
      = (fst (calculate_activity self log_file fs today), Inr self')"
    by (metis prod.collapse)
  from calculate_activity_Inr [OF run] assms have "r = print_activity_log self'"
    by (metis empty_iff empty_set printed.distinct(1) printed.inject(2) set_ConsD)
  with run that show ?thesis by blast
qed

text \<open>
  The grace-period list of a run: the members of the guild list that are not in the active
  list and have, somewhere in the log, a guild join not earlier than 60 days before the
  first entry.
\<close>

lemma grace_period_printed_set:
  assumes "json_load fs log_file = Some logs" "guild_list_file fs = Some gl"
    and "Activity_log r \<in> set (fst (calculate_activity self log_file fs today))"
  shows "set (grace_period_printed r) =
     {i \<in> set (concat (map snd gl)). i \<notin> set (active_printed r)
        \<and> (\<exists>lg \<in> set logs. get_ign lg = i \<and> get_is_join lg \<and> get_is_guild_join lg
              \<and> get_timestamp (hd logs) - timedelta_minutes MINS_FOR_ACTIVITY_RANGE
                    \<le> get_timestamp lg)}"
proof -
  from calculate_activity_printed [OF assms(3)] obtain out self' where
    run: "calculate_activity self log_file fs today = (out, Inr self')"
    and r: "r = print_activity_log self'" .
  from calculate_activity_Inr [OF run] assms(1,2) obtain sb self4 G self5 raw boiled where
    p: "parse_logs (get_timestamp (hd logs) - timedelta_minutes MINS_FOR_ACTIVITY_RANGE) logs
       (self\<lparr>guild_list_dict := gl, sb_level_dict := sb,
              furthest_log_time := get_timestamp (hd logs),
              nearest_log_time := get_timestamp (last logs),
              known_guild_join_dates := []\<rparr>, []) = Inr (self4, G)"
    and s: "sort_categories self4 G (concat (map snd gl)) = Inr self5"
    and self': "self' = self5\<lparr>raw_to_boiled_promotion_igns := raw,
                        boiled_to_scrambled_promotion_igns := boiled\<rparr>"
    by (metis option.inject)
  note s5 = sort_categories_sets [OF s]
  have a: "set (active_printed r) = set (get_active_igns self4) \<inter> set (concat (map snd gl))"
    and g: "set (grace_period_printed r)
        = set G \<inter> set (concat (map snd gl)) - set (get_active_igns self4)"
    using s5(1,2) by (simp_all add: r self' print_activity_log_def Let_def)
  show ?thesis
    unfolding g a using parse_logs_grace_set [OF p] by auto
qed

lemma get_active_igns_iff:
  assumes "distinct (map fst (activity self))"
  shows "i \<in> set (get_active_igns self) \<longleftrightarrow>
    (\<exists>a. map_of (activity self) i = Some a
         \<and> NUM_LONG_JOINS_FOR_ACTIVITY \<le> length (last_long_join a))"
  using assms by (force simp: get_active_igns_def)

lemma sort_categories_frame:
  assumes "sort_categories self G gl = Inr self'"
  shows "activity self' = activity self" "guild_list_dict self' = guild_list_dict self"
    "known_guild_join_dates self' = known_guild_join_dates self"
    "nearest_log_time self' = nearest_log_time self"
    "sb_level_dict self' = sb_level_dict self"
  by (subst sort_categories_sets(4) [OF assms], simp)+

lemma init_activity: "activity init = []"
  by (simp add: init_def reset_def)

text \<open>
  Every tracker a program can hold has a last join in each of its sessions: a fresh one
  has no sessions, and a run keeps the property.
\<close>

lemma joined_init: "joined init"
  by (simp add: joined_def init_activity)

lemma calculate_activity_joined:
  assumes "joined self" "calculate_activity self log_file fs today = (out, Inr self')"
  shows "joined self'"
proof -
  from assms(2) obtain logs gl sb self4 G self5 raw boiled where
    "json_load fs log_file = Some logs" "logs \<noteq> []"
    "guild_list_file fs = Some gl" "sb_level_list_file fs = Some sb"
    and p: "parse_logs (get_timestamp (hd logs) - timedelta_minutes MINS_FOR_ACTIVITY_RANGE) logs
       (self\<lparr>guild_list_dict := gl, sb_level_dict := sb,
              furthest_log_time := get_timestamp (hd logs),
              nearest_log_time := get_timestamp (last logs),
              known_guild_join_dates := []\<rparr>, []) = Inr (self4, G)"
    and s: "sort_categories self4 G (concat (map snd gl)) = Inr self5"
    and "get_raw_to_boiled_promotion_igns self5 today = Inr raw"
    and "get_boiled_to_scrambled_promotion_igns (self5\<lparr>raw_to_boiled_promotion_igns := raw\<rparr>)
       today = Inr boiled"
    and self': "self' = self5\<lparr>raw_to_boiled_promotion_igns := raw,
                        boiled_to_scrambled_promotion_igns := boiled\<rparr>"
    and "out = [Guild_list gl, Activity_log (print_activity_log self')]"
    by (rule calculate_activity_Inr)
  have "joined (self\<lparr>guild_list_dict := gl, sb_level_dict := sb,
              furthest_log_time := get_timestamp (hd logs),
              nearest_log_time := get_timestamp (last logs),
              known_guild_join_dates := []\<rparr>)"
    using assms(1) by (simp add: joined_def)
  from parse_logs_joined [OF p this] have "joined self4" .
  then show ?thesis
    using sort_categories_frame(1) [OF s] by (simp add: joined_def self')
qed

text \<open>The worked example, evaluated.\<close>

lemma run_two_sessions:
  "calculate_activity init ''logs.json''
     (files_with two_sessions (two_ranks [''A'', ''B''] [''C''])) 0
   = ([Guild_list (two_ranks [''A'', ''B''] [''C'']), Activity_log report_two_sessions],
      Inr after_two_sessions)"
  by code_simp

lemma files_with_simps:
  "json_load (files_with logs gl) f = Some logs"
  "guild_list_file (files_with logs gl) = Some gl"
  "sb_level_list_file (files_with logs gl) = Some []"
  by (simp_all add: files_with_def)

text \<open>What a run does not read.\<close>

lemma parse_log_forget_lists:
  "parse_log g lg (forget_lists self, G) =
     (case parse_log g lg (self, G) of
        Inl e \<Rightarrow> Inl e
      | Inr (self', G') \<Rightarrow> Inr (forget_lists self', G'))"
  by (cases "get_is_join lg")
    (simp_all add: parse_log_join parse_log_leave forget_lists_def session_of_def)

lemma parse_logs_forget_lists:
  "parse_logs g lgs (forget_lists self, G) =
     (case parse_logs g lgs (self, G) of
        Inl e \<Rightarrow> Inl e
      | Inr (self', G') \<Rightarrow> Inr (forget_lists self', G'))"
  by (induction lgs arbitrary: self G)
    (auto simp: parse_log_forget_lists split: sum.splits)

lemma last_join_keys_activity:
  "activity self1 = activity self2 \<Longrightarrow> last_join_keys self1 igns = last_join_keys self2 igns"
  by (induction igns) (simp_all split: option.split)

lemma sorted_by_last_join_activity:
  "activity self1 = activity self2 \<Longrightarrow>
   sorted_by_last_join self1 igns = sorted_by_last_join self2 igns"
  by (simp add: sorted_by_last_join_def last_join_keys_activity [of self1 self2])

lemma sort_categories_forget_lists:
  "sort_categories (forget_lists self) G gl =
     (case sort_categories self G gl of
        Inl e \<Rightarrow> Inl e
      | Inr self' \<Rightarrow>
          Inr (self'\<lparr>raw_to_boiled_promotion_igns := [],
                     boiled_to_scrambled_promotion_igns := []\<rparr>))"
proof -
  have a: "activity (forget_lists self) = activity self"
    by (simp add: forget_lists_def)
  show ?thesis
    unfolding sort_categories_def sorted_by_last_join_activity [OF a] a
      get_active_igns_def
    by (simp add: forget_lists_def Let_def split: sum.split)
qed

lemma promotion_test_promotion_lists:
  "promotion_test (self\<lparr>raw_to_boiled_promotion_igns := x\<rparr>) = promotion_test self"
  "promotion_test (self\<lparr>boiled_to_scrambled_promotion_igns := y\<rparr>) = promotion_test self"
  by (simp_all add: promotion_test_def fun_eq_iff split: option.split)

lemma get_raw_to_boiled_promotion_igns_promotion_lists:
  "get_raw_to_boiled_promotion_igns
     (self\<lparr>raw_to_boiled_promotion_igns := x, boiled_to_scrambled_promotion_igns := y\<rparr>) today
   = get_raw_to_boiled_promotion_igns self today"
  by (simp add: get_raw_to_boiled_promotion_igns_def promotion_test_promotion_lists Let_def
      split: option.split)

lemma get_boiled_to_scrambled_promotion_igns_promotion_lists:
  "get_boiled_to_scrambled_promotion_igns
     (self\<lparr>boiled_to_scrambled_promotion_igns := y\<rparr>) today
   = get_boiled_to_scrambled_promotion_igns self today"
  by (simp add: get_boiled_to_scrambled_promotion_igns_def promotion_test_promotion_lists
      Let_def split: option.split cong: sum.case_cong)

text \<open>A run reads nothing of the tracker but \<^verbatim>\<open>self.activity\<close>.\<close>

lemma calculate_activity_reads_activity:
  assumes "activity self1 = activity self2"
  shows "calculate_activity self1 log_file fs today = calculate_activity self2 log_file fs today"
proof (cases "\<exists>logs gl sb. json_load fs log_file = Some logs \<and> logs \<noteq> []
    \<and> guild_list_file fs = Some gl \<and> sb_level_list_file fs = Some sb")
  case False
  then show ?thesis
    by (auto simp: calculate_activity_def Let_def split: option.splits list.splits)
next
  case True
  then obtain logs gl sb where logs: "json_load fs log_file = Some logs" and ne: "logs \<noteq> []"
    and gl: "guild_list_file fs = Some gl" and sb: "sb_level_list_file fs = Some sb"
    by blast
  define start where "start self = self\<lparr>guild_list_dict := gl, sb_level_dict := sb,
      furthest_log_time := get_timestamp (hd logs),
      nearest_log_time := get_timestamp (last logs),
      known_guild_join_dates := []\<rparr>" for self :: tracker
  define rest where "rest st =
     (case parse_logs (get_timestamp (hd logs) - timedelta_minutes MINS_FOR_ACTIVITY_RANGE) logs
             (st, []) of
        Inl e \<Rightarrow> ([Guild_list gl], Inl e)
      | Inr (self4, igns_in_grace_period) \<Rightarrow>
     (case sort_categories self4 igns_in_grace_period (concat (map snd gl)) of
        Inl e \<Rightarrow> ([Guild_list gl], Inl e)
      | Inr self5 \<Rightarrow>
     (case get_raw_to_boiled_promotion_igns self5 today of
        Inl e \<Rightarrow> ([Guild_list gl], Inl e)
      | Inr raw \<Rightarrow>
     (case get_boiled_to_scrambled_promotion_igns
             (self5\<lparr>raw_to_boiled_promotion_igns := raw\<rparr>) today of
        Inl e \<Rightarrow> ([Guild_list gl], Inl e)
      | Inr boiled \<Rightarrow>
          ([Guild_list gl,
            Activity_log (print_activity_log
             (self5\<lparr>raw_to_boiled_promotion_igns := raw,
                     boiled_to_scrambled_promotion_igns := boiled\<rparr>))],
           Inr (self5\<lparr>raw_to_boiled_promotion_igns := raw,
                     boiled_to_scrambled_promotion_igns := boiled\<rparr>))))))"
    for st :: tracker
  have run: "calculate_activity self log_file fs today = rest (start self)" for self
    unfolding rest_def start_def by (rule calculate_activity_loaded [OF logs ne gl sb])
  have swap: "self\<lparr>raw_to_boiled_promotion_igns := [], boiled_to_scrambled_promotion_igns := [],
        raw_to_boiled_promotion_igns := raw\<rparr>
      = self\<lparr>raw_to_boiled_promotion_igns := raw, boiled_to_scrambled_promotion_igns := []\<rparr>"
    for self :: tracker and raw
    by simp
  have forget: "rest (forget_lists st) = rest st" for st
    unfolding rest_def parse_logs_forget_lists
    by (simp add: sort_categories_forget_lists
        get_raw_to_boiled_promotion_igns_promotion_lists swap
        get_boiled_to_scrambled_promotion_igns_promotion_lists
        split: sum.split prod.split)
  have "forget_lists (start self1) = forget_lists (start self2)"
    using assms by (simp add: forget_lists_def start_def)
  then have "rest (start self1) = rest (start self2)"
    using forget [of "start self1"] forget [of "start self2"] by simp
  then show ?thesis
    by (simp add: run)
qed

text \<open>The definitions that evaluate a run on a given log.\<close>

lemmas run_defs = calculate_activity_def files_with_def two_ranks_def init_def reset_def
    log_entry_def parse_log_def is_time_within_mins_def seconds_def sort_categories_def
    sorted_by_last_join_def get_active_igns_def get_raw_to_boiled_promotion_igns_def
    get_boiled_to_scrambled_promotion_igns_def promotion_test_def print_activity_log_def
    Let_def MINS_FOR_LONG_JOIN_def MINS_FOR_RECONNECT_TIMEOUT_def
    MINS_FOR_JOIN_LOG_TIMEOUT_def timedelta_minutes_def MINS_FOR_ACTIVITY_RANGE_def
    NUM_LONG_JOINS_FOR_ACTIVITY_def

section \<open>The properties of the specification\<close>

subsection \<open>The three lists\<close>

text \<open>
  Claim C3. Whenever a run prints its activity lists, for any log, guild list, level list
  and clock, on a fresh tracker or one left by earlier runs: every member of the guild
  list is in exactly one of the three lists and nobody else is in any of them. A member
  of the guild list for whom the tracker holds no session and the log has no entry is in
  the inactive list. (A run that raises prints no lists: see C9 and C10 and
  \<open>calculate_activity_defined\<close>.)
\<close>

theorem activity_lists_partition:
  assumes "json_load fs log_file = Some logs" "guild_list_file fs = Some gl"
    and "Activity_log r \<in> set (fst (calculate_activity self log_file fs today))"
    and "joined self"
  shows "set (active_printed r) \<union> set (grace_period_printed r) \<union> set (inactive_printed r)
           = set (concat (map snd gl))
     \<and> set (active_printed r) \<inter> set (grace_period_printed r) = {}
     \<and> set (active_printed r) \<inter> set (inactive_printed r) = {}
     \<and> set (grace_period_printed r) \<inter> set (inactive_printed r) = {}
     \<and> (\<forall>i \<in> set (concat (map snd gl)).
           i \<notin> fst ` set (activity self) \<longrightarrow> i \<notin> get_ign ` set logs \<longrightarrow>
           i \<in> set (inactive_printed r))"
proof -
  from calculate_activity_printed [OF assms(3)] obtain out self' where
    run: "calculate_activity self log_file fs today = (out, Inr self')"
    and r: "r = print_activity_log self'" .
  from calculate_activity_Inr [OF run] assms(1,2) obtain sb self4 G self5 raw boiled where
    p: "parse_logs (get_timestamp (hd logs) - timedelta_minutes MINS_FOR_ACTIVITY_RANGE) logs
       (self\<lparr>guild_list_dict := gl, sb_level_dict := sb,
              furthest_log_time := get_timestamp (hd logs),
              nearest_log_time := get_timestamp (last logs),
              known_guild_join_dates := []\<rparr>, []) = Inr (self4, G)"
    and s: "sort_categories self4 G (concat (map snd gl)) = Inr self5"
    and self': "self' = self5\<lparr>raw_to_boiled_promotion_igns := raw,
                        boiled_to_scrambled_promotion_igns := boiled\<rparr>"
    by (metis option.inject)
  define R where "R = set (concat (map snd gl))"
  define A where "A = set (get_active_igns self4)"
  note s5 = sort_categories_sets [OF s, folded R_def A_def]
  have a: "set (active_printed r) = A \<inter> R"
    and g: "set (grace_period_printed r) = set G \<inter> R - A"
    and i: "set (inactive_printed r) = R - A - set (grace_period_printed r)"
    using s5(1-3) by (simp_all add: r self' print_activity_log_def Let_def)
  have keys: "fst ` set (activity self4) = fst ` set (activity self) \<union> get_ign ` set logs"
    using parse_logs_keys [OF p] by simp
  have AK: "A \<subseteq> fst ` set (activity self4)"
    unfolding A_def by (rule get_active_igns_keys)
  have GK: "set G \<subseteq> get_ign ` set logs"
    using parse_logs_grace [OF p] by simp
  have "set (active_printed r) \<union> set (grace_period_printed r) \<union> set (inactive_printed r) = R"
    unfolding i unfolding a g by blast
  moreover have "set (active_printed r) \<inter> set (grace_period_printed r) = {}"
    unfolding a g by blast
  moreover have "set (active_printed r) \<inter> set (inactive_printed r) = {}"
    unfolding i unfolding a by blast
  moreover have "set (grace_period_printed r) \<inter> set (inactive_printed r) = {}"
    unfolding i by blast
  moreover have "\<forall>i \<in> R. i \<notin> fst ` set (activity self) \<longrightarrow> i \<notin> get_ign ` set logs \<longrightarrow>
           i \<in> set (inactive_printed r)"
    unfolding i unfolding g using AK GK keys by blast
  ultimately show ?thesis
    unfolding R_def by blast
qed

theorem activity_lists_partition_witness:
  "json_load (files_with two_sessions (two_ranks [''A'', ''B''] [''C''])) ''logs.json''
     = Some two_sessions
   \<and> guild_list_file (files_with two_sessions (two_ranks [''A'', ''B''] [''C'']))
     = Some (two_ranks [''A'', ''B''] [''C''])
   \<and> fst (calculate_activity init ''logs.json''
            (files_with two_sessions (two_ranks [''A'', ''B''] [''C''])) 0)
     = [Guild_list (two_ranks [''A'', ''B''] [''C'']),
        Activity_log \<lparr>active_printed = [''A''], grace_period_printed = [''B''],
          inactive_printed = [''C''], raw_warning = Some [''A''], raw_printed = [],
          boiled_warning = None, boiled_printed = []\<rparr>]
   \<and> set [''A''] \<union> set [''B''] \<union> set [''C'']
     = set (concat (map snd (two_ranks [''A'', ''B''] [''C''])))
   \<and> ''C'' \<notin> fst ` set (activity init) \<and> ''C'' \<notin> get_ign ` set two_sessions
   \<and> joined init"
proof -
  let ?fs = "files_with two_sessions (two_ranks [''A'', ''B''] [''C''])"
  let ?r = "\<lparr>active_printed = [''A''], grace_period_printed = [''B''],
          inactive_printed = [''C''], raw_warning = Some [''A''], raw_printed = [],
          boiled_warning = None, boiled_printed = []\<rparr>"
  have out: "fst (calculate_activity init ''logs.json'' ?fs 0)
     = [Guild_list (two_ranks [''A'', ''B''] [''C'']), Activity_log ?r]"
    by code_simp
  have f1: "json_load ?fs ''logs.json'' = Some two_sessions"
    and f2: "guild_list_file ?fs = Some (two_ranks [''A'', ''B''] [''C''])"
    by (simp_all add: files_with_def)
  have pr: "Activity_log ?r \<in> set (fst (calculate_activity init ''logs.json'' ?fs 0))"
    unfolding out by simp
  from activity_lists_partition [OF f1 f2 pr joined_init]
  have "set [''A''] \<union> set [''B''] \<union> set [''C'']
     = set (concat (map snd (two_ranks [''A'', ''B''] [''C''])))"
    by simp
  moreover have "''C'' \<notin> fst ` set (activity init)"
    by (simp add: init_def reset_def)
  moreover have "''C'' \<notin> get_ign ` set two_sessions"
    by (simp add: two_sessions_def log_entry_def)
  ultimately show ?thesis
    using out f1 f2 joined_init by simp
qed

subsection \<open>Files that cannot be read, and the empty log\<close>

text \<open>
  Claim C9. When the guild list file cannot be opened, the run ends with the exception
  of \<^verbatim>\<open>open\<close>, which names the file, and has printed nothing: no guild list, no
  activity lists, no promotion lists. (The log file is opened first; when it cannot be
  opened either, the exception names the log file.)
\<close>

theorem missing_guild_list_aborts:
  assumes "guild_list_file fs = None"
  shows "calculate_activity self log_file fs today =
     ([], Inl (OSError (if json_load fs log_file = None then log_file
                        else GUILD_LIST_FILENAME)))"
  using assms by (simp add: calculate_activity_def split: option.split)

theorem missing_guild_list_aborts_witness:
  "guild_list_file (files_without_guild_list [log_entry 0 ''A'' True False]) = None
   \<and> calculate_activity init ''logs.json''
         (files_without_guild_list [log_entry 0 ''A'' True False]) 0
       = ([], Inl (OSError ''data/guild_list.txt''))"
  using missing_guild_list_aborts
    [of "files_without_guild_list [log_entry 0 ''A'' True False]" init "''logs.json''" 0]
  by (simp add: files_without_guild_list_def GUILD_LIST_FILENAME_def)

text \<open>
  Claim C10. With all three files readable and an empty log, the run prints the guild
  list and then raises \<^verbatim>\<open>IndexError\<close> at \<^verbatim>\<open>logs[0]\<close>: no activity list is
  printed, so no member of the guild list is reported inactive. Conversely, whenever a
  run prints its activity lists, the log it read had a first entry.
\<close>

theorem empty_log_raises:
  "(json_load fs log_file = Some [] \<and> guild_list_file fs = Some gl
      \<and> sb_level_list_file fs = Some sb
    \<longrightarrow> calculate_activity self log_file fs today = ([Guild_list gl], Inl IndexError))
   \<and> (Activity_log r \<in> set (fst (calculate_activity self log_file fs today))
    \<longrightarrow> (\<exists>lg lgs. json_load fs log_file = Some (lg # lgs)))"
proof (intro conjI impI)
  assume "json_load fs log_file = Some [] \<and> guild_list_file fs = Some gl
      \<and> sb_level_list_file fs = Some sb"
  then show "calculate_activity self log_file fs today = ([Guild_list gl], Inl IndexError)"
    by (simp add: calculate_activity_def)
next
  assume r: "Activity_log r \<in> set (fst (calculate_activity self log_file fs today))"
  show "\<exists>lg lgs. json_load fs log_file = Some (lg # lgs)"
  proof (cases "json_load fs log_file")
    case None
    with r show ?thesis by (simp add: calculate_activity_def)
  next
    case (Some logs)
    show ?thesis
    proof (cases logs)
      case Nil
      with r Some show ?thesis
        by (auto simp: calculate_activity_def Let_def split: option.splits)
    next
      case (Cons lg lgs)
      with Some show ?thesis by simp
    qed
  qed
qed

theorem empty_log_raises_witness:
  "calculate_activity init ''logs.json'' (files_with [] (two_ranks [''A''] [])) 0
     = ([Guild_list (two_ranks [''A''] [])], Inl IndexError)
   \<and> json_load (files_with one_join (two_ranks [''A''] [])) ''logs.json''
       = Some [log_entry 0 ''A'' True False]
   \<and> Activity_log \<lparr>active_printed = [], grace_period_printed = [],
         inactive_printed = [''A''], raw_warning = None, raw_printed = [],
         boiled_warning = None, boiled_printed = []\<rparr>
       \<in> set (fst (calculate_activity init ''logs.json''
                    (files_with one_join (two_ranks [''A''] [])) 0))"
proof -
  have run: "Activity_log \<lparr>active_printed = [], grace_period_printed = [],
         inactive_printed = [''A''], raw_warning = None, raw_printed = [],
         boiled_warning = None, boiled_printed = []\<rparr>
       \<in> set (fst (calculate_activity init ''logs.json''
                    (files_with one_join (two_ranks [''A''] [])) 0))"
    by code_simp
  from empty_log_raises
    [of "files_with [] (two_ranks [''A''] [])" "''logs.json''" "two_ranks [''A''] []" "[]"
      init 0]
  have "calculate_activity init ''logs.json'' (files_with [] (two_ranks [''A''] [])) 0
     = ([Guild_list (two_ranks [''A''] [])], Inl IndexError)"
    by (simp add: files_with_def)
  moreover from empty_log_raises
    [of "files_with one_join (two_ranks [''A''] [])" "''logs.json''" _ _ init 0] run
  have "json_load (files_with one_join (two_ranks [''A''] [])) ''logs.json''
       = Some [log_entry 0 ''A'' True False]"
    by (auto simp: files_with_def one_join_def)
  ultimately show ?thesis using run by simp
qed

text \<open>
  Claim C5. After a run of a fresh tracker that does not raise, a member of the guild list
  is in the printed active list if and only if the tracker holds a session for it with at
  least \<^const>\<open>NUM_LONG_JOINS_FOR_ACTIVITY\<close> (two) long joins. The sessions are the ones
  the loop leaves after the whole log; no date restricts the count.
\<close>

theorem active_iff_enough_long_joins:
  assumes "json_load fs log_file = Some logs" "guild_list_file fs = Some gl"
    and "calculate_activity init log_file fs today = (out, Inr self')"
    and "i \<in> set (concat (map snd gl))"
  shows "out = [Guild_list gl, Activity_log (print_activity_log self')]
     \<and> (i \<in> set (active_printed (print_activity_log self')) \<longleftrightarrow>
          (\<exists>a. map_of (activity self') i = Some a
               \<and> NUM_LONG_JOINS_FOR_ACTIVITY \<le> length (last_long_join a)))
     \<and> (\<exists>sb self4 G.
          parse_logs (get_timestamp (hd logs) - timedelta_minutes MINS_FOR_ACTIVITY_RANGE) logs
            (init\<lparr>guild_list_dict := gl, sb_level_dict := sb,
                   furthest_log_time := get_timestamp (hd logs),
                   nearest_log_time := get_timestamp (last logs),
                   known_guild_join_dates := []\<rparr>, []) = Inr (self4, G)
          \<and> activity self' = activity self4)"
proof -
  from calculate_activity_Inr [OF assms(3)] assms(1,2) obtain sb self4 G self5 raw boiled where
    p: "parse_logs (get_timestamp (hd logs) - timedelta_minutes MINS_FOR_ACTIVITY_RANGE) logs
       (init\<lparr>guild_list_dict := gl, sb_level_dict := sb,
              furthest_log_time := get_timestamp (hd logs),
              nearest_log_time := get_timestamp (last logs),
              known_guild_join_dates := []\<rparr>, []) = Inr (self4, G)"
    and s: "sort_categories self4 G (concat (map snd gl)) = Inr self5"
    and self': "self' = self5\<lparr>raw_to_boiled_promotion_igns := raw,
                        boiled_to_scrambled_promotion_igns := boiled\<rparr>"
    and out: "out = [Guild_list gl, Activity_log (print_activity_log self')]"
    by (metis option.inject)
  have d4: "distinct (map fst (activity self4))"
    using parse_logs_distinct [OF p] by (simp add: init_activity)
  have act: "activity self' = activity self4"
    using sort_categories_frame(1) [OF s] by (simp add: self')
  have "set (active_printed (print_activity_log self'))
      = set (get_active_igns self4) \<inter> set (concat (map snd gl))"
    using sort_categories_sets(1) [OF s] by (simp add: self' print_activity_log_def Let_def)
  with assms(4) have "i \<in> set (active_printed (print_activity_log self')) \<longleftrightarrow>
      i \<in> set (get_active_igns self4)"
    by simp
  then have "i \<in> set (active_printed (print_activity_log self')) \<longleftrightarrow>
          (\<exists>a. map_of (activity self') i = Some a
               \<and> NUM_LONG_JOINS_FOR_ACTIVITY \<le> length (last_long_join a))"
    by (simp add: get_active_igns_iff [OF d4] act)
  with out p act show ?thesis by blast
qed

theorem active_iff_enough_long_joins_witness:
  "json_load (files_with two_sessions (two_ranks [''A'', ''B''] [''C''])) ''logs.json''
     = Some two_sessions
   \<and> guild_list_file (files_with two_sessions (two_ranks [''A'', ''B''] [''C'']))
     = Some (two_ranks [''A'', ''B''] [''C''])
   \<and> snd (calculate_activity init ''logs.json''
            (files_with two_sessions (two_ranks [''A'', ''B''] [''C''])) 0)
     = Inr after_two_sessions
   \<and> ''A'' \<in> set (concat (map snd (two_ranks [''A'', ''B''] [''C''])))
   \<and> ''A'' \<in> set (active_printed (print_activity_log after_two_sessions))
   \<and> (\<exists>a. map_of (activity after_two_sessions) ''A'' = Some a
          \<and> NUM_LONG_JOINS_FOR_ACTIVITY \<le> length (last_long_join a))"
proof -
  have i: "''A'' \<in> set (concat (map snd (two_ranks [''A'', ''B''] [''C''])))"
    by (simp add: two_ranks_def)
  have a: "''A'' \<in> set (active_printed (print_activity_log after_two_sessions))"
    by (simp add: print_activity_log_def after_two_sessions_def Let_def)
  from active_iff_enough_long_joins
    [OF files_with_simps(1) files_with_simps(2) run_two_sessions i] a
  have "\<exists>a. map_of (activity after_two_sessions) ''A'' = Some a
          \<and> NUM_LONG_JOINS_FOR_ACTIVITY \<le> length (last_long_join a)"
    by blast
  with i a show ?thesis
    by (simp add: files_with_simps run_two_sessions)
qed

subsection \<open>The history of long joins\<close>

text \<open>
  Claim C4. After a run of a fresh tracker over a log whose timestamps never decrease,
  the long joins of every player increase strictly; in particular no two neighbours are
  equal.
\<close>

theorem long_joins_strictly_increasing:
  assumes "json_load fs log_file = Some logs" "sorted (map get_timestamp logs)"
    and "calculate_activity init log_file fs today = (out, Inr self')"
    and "map_of (activity self') i = Some a"
  shows "sorted_wrt (<) (last_long_join a)
     \<and> (\<forall>k. Suc k < length (last_long_join a) \<longrightarrow>
            last_long_join a ! k \<noteq> last_long_join a ! Suc k)"
proof -
  from calculate_activity_Inr [OF assms(3)] assms(1) obtain gl sb self4 G self5 raw boiled where
    ne: "logs \<noteq> []"
    and p: "parse_logs (get_timestamp (hd logs) - timedelta_minutes MINS_FOR_ACTIVITY_RANGE) logs
       (init\<lparr>guild_list_dict := gl, sb_level_dict := sb,
              furthest_log_time := get_timestamp (hd logs),
              nearest_log_time := get_timestamp (last logs),
              known_guild_join_dates := []\<rparr>, []) = Inr (self4, G)"
    and s: "sort_categories self4 G (concat (map snd gl)) = Inr self5"
    and self': "self' = self5\<lparr>raw_to_boiled_promotion_igns := raw,
                        boiled_to_scrambled_promotion_igns := boiled\<rparr>"
    by (metis option.inject)
  have act: "activity self' = activity self4"
    using sort_categories_frame(1) [OF s] by (simp add: self')
  have start: "mono_state (get_timestamp (hd logs))
       (init\<lparr>guild_list_dict := gl, sb_level_dict := sb,
              furthest_log_time := get_timestamp (hd logs),
              nearest_log_time := get_timestamp (last logs),
              known_guild_join_dates := []\<rparr>)"
    by (simp add: mono_state_def init_activity)
  have first: "\<forall>lg \<in> set logs. get_timestamp (hd logs) \<le> get_timestamp lg"
    using assms(2) ne by (cases logs) auto
  from parse_logs_mono [OF start assms(2) first p] obtain b where "mono_state b self4" ..
  with assms(4) act have srt: "sorted_wrt (<) (last_long_join a)"
    by (simp add: mono_state_def mono_session_def)
  then have "\<forall>k. Suc k < length (last_long_join a) \<longrightarrow>
            last_long_join a ! k < last_long_join a ! Suc k"
    by (simp add: sorted_wrt_iff_nth_less)
  with srt show ?thesis by fastforce
qed

theorem long_joins_strictly_increasing_witness:
  "json_load (files_with two_sessions (two_ranks [''A'', ''B''] [''C''])) ''logs.json''
     = Some two_sessions
   \<and> sorted (map get_timestamp two_sessions)
   \<and> snd (calculate_activity init ''logs.json''
            (files_with two_sessions (two_ranks [''A'', ''B''] [''C''])) 0)
     = Inr after_two_sessions
   \<and> map_of (activity after_two_sessions) ''A''
     = Some \<lparr>last_join = Some 3000000000, last_leave = Some 6000000000,
             last_long_join = [0, 3000000000]\<rparr>
   \<and> sorted_wrt (<) [0, 3000000000 :: int]"
proof -
  have srt: "sorted (map get_timestamp two_sessions)"
    by (simp add: two_sessions_def log_entry_def timedelta_minutes_def)
  have a: "map_of (activity after_two_sessions) ''A''
     = Some \<lparr>last_join = Some 3000000000, last_leave = Some 6000000000,
             last_long_join = [0, 3000000000]\<rparr>"
    by (simp add: after_two_sessions_def)
  from long_joins_strictly_increasing [OF files_with_simps(1) srt run_two_sessions a]
  have "sorted_wrt (<) [0, 3000000000 :: int]"
    by simp
  with srt a show ?thesis
    by (simp add: files_with_simps run_two_sessions)
qed

subsection \<open>Promotion without a known guild-join date\<close>

text \<open>
  Claim C8. After a run that does not raise, on a fresh tracker or one left by earlier
  runs, a player of rank \<^verbatim>\<open>Raw Egg\<close> who is in
  the active list, whose last long join is not before the start of the promotion range
  (seven days before the last entry of the log) and for whom no guild-join date is known
  is in the promotion list; the warning is printed and names the player; the list printed
  after the warning does not contain the player. The players of the warning and those of
  the printed list are disjoint and together are the promotion list.
\<close>

theorem unknown_guild_join_date_flagged:
  assumes "guild_list_file fs = Some gl" "map_of gl ''Raw Egg'' = Some raw_igns"
    and "calculate_activity self log_file fs today = (out, Inr self')"
    and "i \<in> set raw_igns" "i \<in> set (active_igns self')"
    and "map_of (activity self') i = Some a"
    and "\<forall>t \<in> set (last_n NUM_LONG_JOINS_FOR_RAW_PROMOTION (last_long_join a)).
           nearest_log_time self' - timedelta_minutes MINS_FOR_RAW_PROMOTION_ACTIVITY_RANGE \<le> t"
    and "map_of (known_guild_join_dates self') i = None"
    and "joined self"
  shows "out = [Guild_list gl, Activity_log (print_activity_log self')]
     \<and> i \<in> set (raw_to_boiled_promotion_igns self')
     \<and> (\<exists>w. raw_warning (print_activity_log self') = Some w \<and> i \<in> set w
            \<and> set w \<inter> set (raw_printed (print_activity_log self')) = {}
            \<and> set w \<union> set (raw_printed (print_activity_log self'))
                = set (raw_to_boiled_promotion_igns self'))
     \<and> i \<notin> set (raw_printed (print_activity_log self'))"
proof -
  from calculate_activity_Inr [OF assms(3)] assms(1) obtain logs sb self4 G self5 raw boiled
    where p: "parse_logs (get_timestamp (hd logs) - timedelta_minutes MINS_FOR_ACTIVITY_RANGE)
       logs
       (self\<lparr>guild_list_dict := gl, sb_level_dict := sb,
              furthest_log_time := get_timestamp (hd logs),
              nearest_log_time := get_timestamp (last logs),
              known_guild_join_dates := []\<rparr>, []) = Inr (self4, G)"
    and s: "sort_categories self4 G (concat (map snd gl)) = Inr self5"
    and r: "get_raw_to_boiled_promotion_igns self5 today = Inr raw"
    and self': "self' = self5\<lparr>raw_to_boiled_promotion_igns := raw,
                        boiled_to_scrambled_promotion_igns := boiled\<rparr>"
    and out: "out = [Guild_list gl, Activity_log (print_activity_log self')]"
    by (metis option.inject)
  have gld: "guild_list_dict self5 = gl"
    using sort_categories_frame(2) [OF s] parse_logs_frame [OF p] by simp
  have test: "promotion_test self5 NUM_LONG_JOINS_FOR_RAW_PROMOTION
      (nearest_log_time self5 - timedelta_minutes MINS_FOR_RAW_PROMOTION_ACTIVITY_RANGE)
      (today - timedelta_minutes MINS_FOR_RAW_JOIN_DATE_PROMOTION_RANGE) i = Inr True"
    using assms(5-8) by (auto simp: promotion_test_def self' filter_empty_conv)
  have "raw = filter (\<lambda>x. promotion_test self5 NUM_LONG_JOINS_FOR_RAW_PROMOTION
      (nearest_log_time self5 - timedelta_minutes MINS_FOR_RAW_PROMOTION_ACTIVITY_RANGE)
      (today - timedelta_minutes MINS_FOR_RAW_JOIN_DATE_PROMOTION_RANGE) x = Inr True) raw_igns"
    using r assms(2) filter_raising_Inr
    by (simp add: get_raw_to_boiled_promotion_igns_def gld Let_def)
  with test assms(4) have raw: "i \<in> set raw"
    by simp
  define w where "w = [i \<leftarrow> raw. map_of (known_guild_join_dates self') i = None]"
  have iw: "i \<in> set w"
    using raw assms(8) by (simp add: w_def)
  then have "w \<noteq> []"
    by auto
  then have "raw_warning (print_activity_log self') = Some w"
    by (simp add: print_activity_log_def self' w_def Let_def)
  moreover have printed: "raw_printed (print_activity_log self') = [i \<leftarrow> raw. i \<notin> set w]"
    by (simp add: print_activity_log_def self' w_def Let_def)
  moreover have "set w \<inter> set [i \<leftarrow> raw. i \<notin> set w] = {}"
    and "set w \<union> set [i \<leftarrow> raw. i \<notin> set w] = set raw"
    by (auto simp: w_def)
  moreover have "raw_to_boiled_promotion_igns self' = raw"
    by (simp add: self')
  ultimately show ?thesis
    using out raw iw by simp
qed

theorem unknown_guild_join_date_flagged_witness:
  "guild_list_file (files_with two_sessions (two_ranks [''A'', ''B''] [''C'']))
     = Some (two_ranks [''A'', ''B''] [''C''])
   \<and> map_of (two_ranks [''A'', ''B''] [''C'']) ''Raw Egg'' = Some [''A'', ''B'']
   \<and> snd (calculate_activity init ''logs.json''
            (files_with two_sessions (two_ranks [''A'', ''B''] [''C''])) 0)
     = Inr after_two_sessions
   \<and> ''A'' \<in> set (active_igns after_two_sessions)
   \<and> map_of (activity after_two_sessions) ''A''
     = Some \<lparr>last_join = Some 3000000000, last_leave = Some 6000000000,
             last_long_join = [0, 3000000000]\<rparr>
   \<and> map_of (known_guild_join_dates after_two_sessions) ''A'' = None
   \<and> ''A'' \<in> set (raw_to_boiled_promotion_igns after_two_sessions)
   \<and> raw_warning (print_activity_log after_two_sessions) = Some [''A'']
   \<and> ''A'' \<notin> set (raw_printed (print_activity_log after_two_sessions))
   \<and> joined init"
proof -
  let ?a = "\<lparr>last_join = Some 3000000000, last_leave = Some 6000000000,
             last_long_join = [0, 3000000000]\<rparr>"
  have raw: "map_of (two_ranks [''A'', ''B''] [''C'']) ''Raw Egg'' = Some [''A'', ''B'']"
    by (simp add: two_ranks_def)
  have i: "''A'' \<in> set [''A'', ''B'']"
    by simp
  have act: "''A'' \<in> set (active_igns after_two_sessions)"
    by (simp add: after_two_sessions_def)
  have a: "map_of (activity after_two_sessions) ''A'' = Some ?a"
    by (simp add: after_two_sessions_def)
  have recent: "\<forall>t \<in> set (last_n NUM_LONG_JOINS_FOR_RAW_PROMOTION (last_long_join ?a)).
      nearest_log_time after_two_sessions
        - timedelta_minutes MINS_FOR_RAW_PROMOTION_ACTIVITY_RANGE \<le> t"
    by (simp add: last_n_def NUM_LONG_JOINS_FOR_RAW_PROMOTION_def after_two_sessions_def
        timedelta_minutes_def MINS_FOR_RAW_PROMOTION_ACTIVITY_RANGE_def)
  have unknown: "map_of (known_guild_join_dates after_two_sessions) ''A'' = None"
    by (simp add: after_two_sessions_def)
  have w: "raw_warning (print_activity_log after_two_sessions) = Some [''A'']"
    by (simp add: print_activity_log_def after_two_sessions_def Let_def)
  from unknown_guild_join_date_flagged
    [OF files_with_simps(2) raw run_two_sessions i act a recent unknown joined_init]
  have "''A'' \<in> set (raw_to_boiled_promotion_igns after_two_sessions)
    \<and> ''A'' \<notin> set (raw_printed (print_activity_log after_two_sessions))"
    by blast
  with raw act a unknown w show ?thesis
    by (simp add: files_with_simps run_two_sessions joined_init)
qed

subsection \<open>Reconnects and long sessions\<close>

text \<open>
  Claim C1. The reconnect scenario, run on a fresh tracker for any start \<open>T0\<close> and any
  clock reading: the player ends with one long join, and it is the second join
  (\<open>T0\<close> plus 11 minutes), not the first. The third test of the join condition,
  \<^verbatim>\<open>is_time_within_mins(last_join, timestamp, MINS_FOR_JOIN_LOG_TIMEOUT)\<close>, holds for
  every pair of timestamps (\<open>within_join_log_timeout\<close>), so every join that does not
  raise moves \<^verbatim>\<open>last_join\<close> (\<open>parse_log_join\<close>) and the reconnect timeout never
  keeps a session open.
\<close>

theorem reconnect_scenario:
  "map_sum id activity
     (snd (calculate_activity init ''logs.json''
             (files_with (reconnect_log T0) (two_ranks [''A''] [])) today))
   = Inr [(''A'', \<lparr>last_join = Some (T0 + timedelta_minutes 11),
                   last_leave = Some (T0 + timedelta_minutes 50),
                   last_long_join = [T0 + timedelta_minutes 11]\<rparr>)]"
  by (simp add: run_defs reconnect_log_def)

text \<open>
  Claim C2. A join at \<open>T0\<close> and the leave one day and ten minutes later, run on a fresh
  tracker: the span is longer than \<^const>\<open>MINS_FOR_LONG_JOIN\<close> minutes, yet no long join
  is recorded, since \<^verbatim>\<open>diff.seconds\<close> leaves out the whole days of the span. (For a
  span of less than a day the test is the one on the whole span:
  \<open>long_join_within_a_day\<close>.)
\<close>

theorem overnight_session_not_long:
  "map_sum id activity
     (snd (calculate_activity init ''logs.json''
             (files_with (overnight_log T0) (two_ranks [''A''] [])) today))
   = Inr [(''A'', \<lparr>last_join = Some T0,
                   last_leave = Some (T0 + timedelta_minutes (24 * 60 + 10)),
                   last_long_join = []\<rparr>)]
   \<and> timedelta_minutes MINS_FOR_LONG_JOIN \<le> (T0 + timedelta_minutes (24 * 60 + 10)) - T0"
  by (simp add: run_defs overnight_log_def)

subsection \<open>Guild joins and the grace period\<close>

text \<open>
  Claim C6, as it stands, fails: in a log whose first entry is the guild join of A and
  whose last entry is a hundred days later, A is printed in the grace-period list although
  the guild join is more than \<^const>\<open>MINS_FOR_ACTIVITY_RANGE\<close> minutes (60 days) before
  the last timestamp of the log.
\<close>

theorem grace_window_from_first_entry:
  "fst (calculate_activity init ''logs.json''
          (files_with far_apart_log (two_ranks [''A''] [])) 0)
     = [Guild_list (two_ranks [''A''] []),
        Activity_log \<lparr>active_printed = [], grace_period_printed = [''A''],
          inactive_printed = [], raw_warning = None, raw_printed = [],
          boiled_warning = None, boiled_printed = []\<rparr>]
   \<and> far_apart_log ! 0 = log_entry 0 ''A'' True True
   \<and> \<not> get_timestamp (last far_apart_log) - get_timestamp (far_apart_log ! 0)
         \<le> timedelta_minutes MINS_FOR_ACTIVITY_RANGE"
  by code_simp

text \<open>
  Claim C6, amended. The loop is run with
  \<^verbatim>\<open>activity_grace_period_end = furthest_log_time - 60 days\<close>, and
  \<^verbatim>\<open>furthest_log_time\<close> is the timestamp of the first entry of the log. An entry that
  is a join and a guild join, and that the loop processes without raising, sets the known
  guild-join date of its player to its timestamp, and adds the player to
  \<^verbatim>\<open>igns_in_grace_period\<close> exactly when its timestamp is not before
  \<^verbatim>\<open>furthest_log_time - 60 days\<close>; otherwise the set is unchanged. (What this
  makes of the printed grace-period list is \<open>grace_period_printed_set\<close>.)
\<close>

theorem guild_join_entry:
  assumes "get_is_join lg" "get_is_guild_join lg"
    and "parse_log (furthest_log_time self - timedelta_minutes MINS_FOR_ACTIVITY_RANGE) lg
           (self, igns_in_grace_period) = Inr (self', igns_in_grace_period')"
  shows "map_of (known_guild_join_dates self') (get_ign lg) = Some (get_timestamp lg)
     \<and> igns_in_grace_period' =
         (if furthest_log_time self - timedelta_minutes MINS_FOR_ACTIVITY_RANGE
               \<le> get_timestamp lg
          then List.insert (get_ign lg) igns_in_grace_period else igns_in_grace_period)
     \<and> furthest_log_time self' = furthest_log_time self"
proof -
  from assms(3) have nr: "\<not> join_raises (session_of self (get_ign lg)) (get_timestamp lg)"
    by (simp add: parse_log_join [OF assms(1)] split: if_splits)
  from assms(3) show ?thesis
    unfolding parse_log_join [OF assms(1)] using nr assms(2)
    by (auto simp: update_conv')
qed

theorem guild_join_entry_witness:
  "get_is_join (log_entry 0 ''A'' True True) \<and> get_is_guild_join (log_entry 0 ''A'' True True)
   \<and> parse_log (furthest_log_time init - timedelta_minutes MINS_FOR_ACTIVITY_RANGE)
        (log_entry 0 ''A'' True True) (init, [])
     = Inr (init\<lparr>activity :=
                   [(''A'', \<lparr>last_join = Some 0, last_leave = None, last_long_join = []\<rparr>)],
                 known_guild_join_dates := [(''A'', 0)]\<rparr>, [''A''])
   \<and> map_of [(''A'', 0 :: int)] ''A'' = Some 0
   \<and> [''A''] = List.insert ''A'' []"
proof -
  have j: "get_is_join (log_entry 0 ''A'' True True)"
    and g: "get_is_guild_join (log_entry 0 ''A'' True True)"
    by (simp_all add: log_entry_def)
  have step: "parse_log (furthest_log_time init - timedelta_minutes MINS_FOR_ACTIVITY_RANGE)
        (log_entry 0 ''A'' True True) (init, [])
     = Inr (init\<lparr>activity :=
                   [(''A'', \<lparr>last_join = Some 0, last_leave = None, last_long_join = []\<rparr>)],
                 known_guild_join_dates := [(''A'', 0)]\<rparr>, [''A''])"
    by (simp add: parse_log_def log_entry_def init_def reset_def Let_def timedelta_minutes_def
        MINS_FOR_ACTIVITY_RANGE_def)
  have w: "map_of [(''A'', 0 :: int)] ''A'' = Some 0 \<and> [''A''] = List.insert ''A'' []"
    using guild_join_entry [OF j g step]
    by (simp add: log_entry_def)
  show ?thesis
    using j g step w by blast
qed

subsection \<open>Runs on the same tracker\<close>

text \<open>
  Claim C7, as it stands, fails twice. A second run on the same tracker with the same
  files and the same clock goes on from the sessions of the first: with a log in which A
  leaves 40 minutes after the first entry and joins again, the first run prints A as
  inactive and the second as active. And the promotion lists depend on the clock: with
  a guild join at time 0, A is left out of the promotion list at day 29 and printed in
  it at day 31.
\<close>

theorem second_run_differs:
  "fst (calculate_activity init ''logs.json'' (files_with rejoin_log (two_ranks [''A''] [])) 0)
     = [Guild_list (two_ranks [''A''] []),
        Activity_log \<lparr>active_printed = [], grace_period_printed = [],
          inactive_printed = [''A''], raw_warning = None, raw_printed = [],
          boiled_warning = None, boiled_printed = []\<rparr>]
   \<and> (case snd (calculate_activity init ''logs.json''
                    (files_with rejoin_log (two_ranks [''A''] [])) 0) of
          Inl e \<Rightarrow> []
        | Inr self1 \<Rightarrow>
            fst (calculate_activity self1 ''logs.json''
                   (files_with rejoin_log (two_ranks [''A''] [])) 0))
     = [Guild_list (two_ranks [''A''] []),
        Activity_log \<lparr>active_printed = [''A''], grace_period_printed = [],
          inactive_printed = [], raw_warning = Some [''A''], raw_printed = [],
          boiled_warning = None, boiled_printed = []\<rparr>]
   \<and> fst (calculate_activity init ''logs.json'' (files_with tenure_log (two_ranks [''A''] []))
            (timedelta_minutes (29 * 24 * 60)))
     = [Guild_list (two_ranks [''A''] []),
        Activity_log \<lparr>active_printed = [''A''], grace_period_printed = [],
          inactive_printed = [], raw_warning = None, raw_printed = [],
          boiled_warning = None, boiled_printed = []\<rparr>]
   \<and> fst (calculate_activity init ''logs.json'' (files_with tenure_log (two_ranks [''A''] []))
            (timedelta_minutes (31 * 24 * 60)))
     = [Guild_list (two_ranks [''A''] []),
        Activity_log \<lparr>active_printed = [''A''], grace_period_printed = [],
          inactive_printed = [], raw_warning = None, raw_printed = [''A''],
          boiled_warning = None, boiled_printed = []\<rparr>]"
  by code_simp

text \<open>
  Claim C7, amended. A run on a tracker that has been reset is the run of a fresh tracker
  on the same log file, guild list, level list and clock reading: same output, same
  exception or same tracker afterwards, whatever the tracker held before the reset.
\<close>

theorem run_after_reset:
  "calculate_activity (reset self) log_file fs today = calculate_activity init log_file fs today"
  by (rule calculate_activity_reads_activity) (simp add: reset_def init_def)

end
